theory Spec2Isabelle
  imports Complex_Main "HOL-Library.AList"
begin

section \<open>Runtime conventions\<close>

text \<open>
  The development embeds the color-scale generator: the string builders of
  the \<^verbatim>\<open>colorMix\<close> utilities and the scale generators that import them.

  Numbers of the runtime are IEEE doubles. The lightness and alpha arithmetic is
  modelled over \<^typ>\<open>real\<close> (exact arithmetic, no rounding), and the integers that
  \<^verbatim>\<open>parseInt\<close> yields over \<^typ>\<open>int\<close> (exact below \<open>2^53\<close>, where doubles hold
  every integer). Strings are byte strings.

  An object is an association list in key order: reading a property is
  \<^const>\<open>map_of\<close> (an absent property reads as \<open>undefined\<close>, here \<open>None\<close>), assigning
  one is \<^const>\<open>AList.update\<close> (in place when the key exists, appended otherwise).
  The keys of a list are distinct, as the keys of an object are; every table of
  the source lists its keys in ascending numeric order, which is the order the
  runtime enumerates them in. The values of an option object are strings, as
  its declared type has them. A plain object is taken not to redefine
  \<^verbatim>\<open>toString\<close>.
\<close>

subsection \<open>\<^verbatim>\<open>parseInt\<close> and the string form of a number\<close>

text \<open>The value a template literal prints for a number: \<open>None\<close> is \<open>NaN\<close>.\<close>

type_synonym number = "int option"

definition isWhiteSpace :: "char \<Rightarrow> bool" where
  "isWhiteSpace c = (c \<in> set [CHR 0x09, CHR 0x0A, CHR 0x0B, CHR 0x0C, CHR 0x0D, CHR 0x20])"

text \<open>Digits are recognised by code unit: \<open>0\<close>-\<open>9\<close> are 48-57, \<open>a\<close>-\<open>f\<close> 97-102, \<open>A\<close>-\<open>F\<close> 65-70.\<close>

definition decDigit :: "char \<Rightarrow> nat option" where
  "decDigit c =
     (let u = (of_char c :: nat) in if 48 \<le> u \<and> u \<le> 57 then Some (u - 48) else None)"

definition hexDigit :: "char \<Rightarrow> nat option" where
  "hexDigit c =
     (let u = (of_char c :: nat) in
      if 48 \<le> u \<and> u \<le> 57 then Some (u - 48)
      else if 97 \<le> u \<and> u \<le> 102 then Some (u - 97 + 10)
      else if 65 \<le> u \<and> u \<le> 70 then Some (u - 65 + 10)
      else None)"

text \<open>The longest prefix of digits, as digit values.\<close>

fun takeDigits :: "(char \<Rightarrow> nat option) \<Rightarrow> string \<Rightarrow> nat list" where
  "takeDigits d [] = []"
| "takeDigits d (c # cs) = (case d c of None \<Rightarrow> [] | Some v \<Rightarrow> v # takeDigits d cs)"

definition radixValue :: "nat \<Rightarrow> nat list \<Rightarrow> nat" where
  "radixValue R ds = foldl (\<lambda>acc v. acc * R + v) 0 ds"

text \<open>
  \<^verbatim>\<open>parseInt(string)\<close> with no radix: leading white space is dropped, a sign is
  read, a \<^verbatim>\<open>0x\<close> prefix selects radix 16, the longest prefix of digits is the value,
  and no digit at all gives \<open>NaN\<close>.
\<close>

definition parseInt :: "string \<Rightarrow> number" where
  "parseInt str =
     (let s0 = dropWhile isWhiteSpace str;
          neg = (take 1 s0 = ''-'');
          s1 = (if take 1 s0 = ''+'' \<or> take 1 s0 = ''-'' then drop 1 s0 else s0);
          hex = (take 2 s1 = ''0x'' \<or> take 2 s1 = ''0X'');
          ds = (if hex then takeDigits hexDigit (drop 2 s1) else takeDigits decDigit s1);
          R = (if hex then 16 else 10)
      in if ds = [] then None
         else Some ((if neg then - 1 else 1) * int (radixValue R ds)))"

text \<open>\<^verbatim>\<open>100 - n\<close>: \<open>NaN\<close> propagates.\<close>

definition minus100 :: "number \<Rightarrow> number" where
  "minus100 n = (case n of None \<Rightarrow> None | Some i \<Rightarrow> Some (100 - i))"

fun digitsOf :: "nat \<Rightarrow> string" where
  "digitsOf n =
     (if n < 10 then [char_of (48 + n)]
      else digitsOf (n div 10) @ [char_of (48 + n mod 10)])"

declare digitsOf.simps [simp del]

text \<open>The string a template literal substitutes for a number.\<close>

definition numberToString :: "number \<Rightarrow> string" where
  "numberToString n =
     (case n of
        None \<Rightarrow> ''NaN''
      | Some i \<Rightarrow> (if i < 0 then ''-'' @ digitsOf (nat (- i)) else digitsOf (nat i)))"

section \<open>Color primitives\<close>

type_synonym percentage = string

definition colorMix :: "string \<Rightarrow> string \<Rightarrow> string" where
  "colorMix colorOne colorTwo = ''color-mix(in oklch, '' @ colorOne @ '', '' @ colorTwo @ '')''"

definition transparentize :: "string \<Rightarrow> percentage \<Rightarrow> string" where
  "transparentize color percentage = colorMix (color @ '' '' @ percentage) ''transparent''"

definition lighten :: "string \<Rightarrow> percentage \<Rightarrow> string" where
  "lighten color percentage =
     colorMix (color @ '' '' @ numberToString (minus100 (parseInt percentage)) @ ''%'')
              (''white '' @ percentage)"

definition darken :: "string \<Rightarrow> percentage \<Rightarrow> string" where
  "darken color percentage =
     colorMix (color @ '' '' @ numberToString (minus100 (parseInt percentage)) @ ''%'')
              ''black 10%''"

section \<open>Shade ladder\<close>

definition LIGHT_SHADES :: "string list" where
  "LIGHT_SHADES = rev [''25'', ''50'', ''100'', ''150'', ''200'', ''300'', ''400'']"

definition DARK_SHADES :: "string list" where
  "DARK_SHADES = [''600'', ''700'', ''750'', ''800'', ''850'', ''900'', ''950'']"

definition ALL_SHADES :: "string list" where
  "ALL_SHADES = rev LIGHT_SHADES @ [''500''] @ DARK_SHADES"

definition TARGET_L_50_SHADE :: real where
  "TARGET_L_50_SHADE = 97"

definition TARGET_L_900_SHADE :: real where
  "TARGET_L_900_SHADE = 12"

definition ALPHA_SHADES_MAP :: "(string \<times> percentage) list" where
  "ALPHA_SHADES_MAP =
     [(''25'', ''2%''), (''50'', ''3%''), (''100'', ''7%''), (''150'', ''11%''),
      (''200'', ''15%''), (''300'', ''28%''), (''400'', ''41%''), (''500'', ''53%''),
      (''600'', ''62%''), (''700'', ''73%''), (''750'', ''78%''), (''800'', ''81%''),
      (''850'', ''84%''), (''900'', ''87%''), (''950'', ''92%'')]"

text \<open>Every shade key is present and holds \<open>undefined\<close>.\<close>

definition createEmptyColorScale :: "(string \<times> 'a option) list" where
  "createEmptyColorScale =
     [(''25'', None), (''50'', None), (''100'', None), (''150'', None), (''200'', None),
      (''300'', None), (''400'', None), (''500'', None), (''600'', None), (''700'', None),
      (''750'', None), (''800'', None), (''850'', None), (''900'', None), (''950'', None)]"

datatype shadeType = Lighten | Darken | Base

definition LIGHTNESS_SHADES_DEF :: "(string \<times> shadeType \<times> percentage) list" where
  "LIGHTNESS_SHADES_DEF =
     [(''25'', Lighten, ''92%''), (''50'', Lighten, ''85%''), (''100'', Lighten, ''70%''),
      (''150'', Lighten, ''55%''), (''200'', Lighten, ''40%''), (''300'', Lighten, ''25%''),
      (''400'', Lighten, ''10%''), (''500'', Base, ''0%''), (''600'', Darken, ''10%''),
      (''700'', Darken, ''25%''), (''750'', Darken, ''40%''), (''800'', Darken, ''55%''),
      (''850'', Darken, ''70%''), (''900'', Darken, ''85%''), (''950'', Darken, ''92%'')]"

definition ALL_LIGHTNESS_SHADE_KEYS :: "string list" where
  "ALL_LIGHTNESS_SHADE_KEYS = map fst LIGHTNESS_SHADES_DEF"

section \<open>Values, errors and collaborators\<close>

text \<open>
  An HSLA color of the color module; the fields are \<^verbatim>\<open>h\<close>, \<^verbatim>\<open>s\<close>, \<^verbatim>\<open>l\<close> and \<^verbatim>\<open>a\<close>
  of the source.
\<close>

record hsla =
  hsla_h :: real
  hsla_s :: real
  hsla_l :: real
  hsla_a :: real

text \<open>A thrown \<^verbatim>\<open>Error\<close> with its message.\<close>

datatype error = Error string

text \<open>
  The color option: \<open>undefined\<close>, a color string, or an object from shade keys to
  color strings (its own properties, in key order).
\<close>

datatype color_option = Undefined | Str string | Obj "(string \<times> string) list"

fun truthy :: "color_option \<Rightarrow> bool" where
  "truthy Undefined = False"
| "truthy (Str s) = (s \<noteq> [])"
| "truthy (Obj ob) = True"

text \<open>Truthiness of a property read: \<open>undefined\<close> and the empty string are falsy.\<close>

fun truthyStr :: "string option \<Rightarrow> bool" where
  "truthyStr None = False"
| "truthyStr (Some s) = (s \<noteq> [])"

text \<open>
  What a template literal substitutes for the color option: a string stands for
  itself, a plain object prints as \<^verbatim>\<open>[object Object]\<close>.
\<close>

fun templateString :: "color_option \<Rightarrow> string" where
  "templateString Undefined = ''undefined''"
| "templateString (Str s) = s"
| "templateString (Obj ob) = ''[object Object]''"

text \<open>
  Modelled from the spec: \<^verbatim>\<open>colors.changeHslaLightness\<close> of the color module, which is
  not among the sources; the spec has it "shift lightness by a signed delta", the
  other channels carried over.
\<close>

definition changeHslaLightness :: "hsla \<Rightarrow> real \<Rightarrow> hsla" where
  "changeHslaLightness color lightness = color\<lparr>hsla_l := hsla_l color + lightness\<rparr>"

text \<open>
  Modelled from the spec: \<^verbatim>\<open>colors.setHslaAlpha\<close> of the color module, which is not
  among the sources; the spec has it "set alpha channel".
\<close>

definition setHslaAlpha :: "hsla \<Rightarrow> real \<Rightarrow> hsla" where
  "setHslaAlpha color alpha = color\<lparr>hsla_a := alpha\<rparr>"

text \<open>
  The parser \<^verbatim>\<open>colors.toHslaColor\<close> and the printer \<^verbatim>\<open>colors.toHslaString\<close> of the
  color module are parameters of every function that calls them: a parser
  \<open>toHslaColor :: string \<Rightarrow> error + hsla\<close>, whose \<open>Inl\<close> is the error it throws, and
  a printer \<open>toHslaString :: hsla \<Rightarrow> string\<close>.
\<close>

text \<open>
  Modelled from the spec: the helper \<^verbatim>\<open>fromEntries\<close> of \<^verbatim>\<open>./fromEntries\<close>, which is not
  among the sources; as \<^verbatim>\<open>Object.fromEntries\<close>, it assigns every entry in turn to a
  fresh object. \<open>spread target source\<close> is the object spread
  \<^verbatim>\<open>{...target, ...source}\<close>.
\<close>

definition spread :: "(string \<times> 'v) list \<Rightarrow> (string \<times> 'v) list \<Rightarrow> (string \<times> 'v) list" where
  "spread target source = foldl (\<lambda>acc (k, v). AList.update k v acc) target source"

definition fromEntries :: "(string \<times> 'v) list \<Rightarrow> (string \<times> 'v) list" where
  "fromEntries entries = spread [] entries"

text \<open>Reading a property of a scale whose values may be \<open>undefined\<close>.\<close>

definition getProp :: "(string \<times> 'v option) list \<Rightarrow> string \<Rightarrow> 'v option" where
  "getProp scale key = (case map_of scale key of None \<Rightarrow> None | Some v \<Rightarrow> v)"

fun join :: "string \<Rightarrow> string list \<Rightarrow> string" where
  "join sep [] = []"
| "join sep [x] = x"
| "join sep (x # y # ys) = x @ sep @ join sep (y # ys)"

section \<open>Feature probe\<close>

record supportFlags =
  colorMixFlag :: "bool option"

record window =
  ClerkCSSSupport :: "supportFlags option"

text \<open>
  \<open>cssSupports\<close> is what \<^verbatim>\<open>CSS.supports('color', 'color-mix(in srgb, red, blue)')\<close>
  answers; it is asked only while the flag is not cached.
\<close>

definition isColorMixSupported :: "bool \<Rightarrow> window \<Rightarrow> bool \<times> window" where
  "isColorMixSupported cssSupports w =
     (let flags = (case ClerkCSSSupport w of
                     None \<Rightarrow> \<lparr>colorMixFlag = None\<rparr>
                   | Some f \<Rightarrow> f)
      in case colorMixFlag flags of
           None \<Rightarrow> (cssSupports, w\<lparr>ClerkCSSSupport := Some (flags\<lparr>colorMixFlag := Some cssSupports\<rparr>)\<rparr>)
         | Some b \<Rightarrow> (b, w\<lparr>ClerkCSSSupport := Some flags\<rparr>))"

section \<open>Alpha scale by \<^verbatim>\<open>color-mix\<close>\<close>

definition createAlphaScaleWithTransparentize :: "string \<Rightarrow> string \<Rightarrow> (string \<times> string) list" where
  "createAlphaScaleWithTransparentize baseColor prefix =
     fromEntries
       (map (\<lambda>(shadeKey, percentage). (prefix @ shadeKey, transparentize baseColor percentage))
          ALPHA_SHADES_MAP)"

section \<open>Lightness scale by \<^verbatim>\<open>color-mix\<close>\<close>

text \<open>The loop that records the truthy shades of an object as overrides.\<close>

definition userProvidedStep ::
  "(string \<times> string) list \<Rightarrow> (string \<times> string) list \<Rightarrow> string \<Rightarrow> (string \<times> string) list" where
  "userProvidedStep colorOption userProvidedShades key =
     (case map_of colorOption key of
        None \<Rightarrow> userProvidedShades
      | Some v \<Rightarrow> if v = [] then userProvidedShades else AList.update key v userProvidedShades)"

text \<open>
  The loop that generates every shade from the base; the \<^verbatim>\<open>console.log\<close> of the
  \<^verbatim>\<open>lighten\<close> case has no effect on the result.
\<close>

definition generatedStep ::
  "string \<Rightarrow> (string \<times> string) list \<Rightarrow> string \<Rightarrow> (string \<times> string) list" where
  "generatedStep baseFor500 generatedScale shadeKey =
     (case map_of LIGHTNESS_SHADES_DEF shadeKey of
        None \<Rightarrow> generatedScale
      | Some (Base, amount) \<Rightarrow> AList.update shadeKey baseFor500 generatedScale
      | Some (Lighten, amount) \<Rightarrow> AList.update shadeKey (lighten baseFor500 amount) generatedScale
      | Some (Darken, amount) \<Rightarrow> AList.update shadeKey (darken baseFor500 amount) generatedScale)"

text \<open>The loop that prefixes the keys of the merged scale, skipping falsy values.\<close>

definition resultStep ::
  "string \<Rightarrow> (string \<times> string) list \<Rightarrow> (string \<times> string) list \<Rightarrow> string \<Rightarrow> (string \<times> string) list" where
  "resultStep prefix mergedScale resultScale key =
     (case map_of mergedScale key of
        None \<Rightarrow> resultScale
      | Some v \<Rightarrow> if v = [] then resultScale else AList.update (prefix @ key) v resultScale)"

definition missing500Message :: "string \<Rightarrow> string" where
  "missing500Message prefix =
     ''Color scale generation for prefix '' @ [CHR 0x27] @ prefix @ [CHR 0x27]
       @ '' failed: The '' @ [CHR 0x27] @ ''500'' @ [CHR 0x27]
       @ '' shade is required in the colorOption object.''"

text \<open>
  The part after the base has been found: generate, merge the overrides over the
  generated shades, prefix.
\<close>

definition colorMixScaleFrom ::
  "string \<Rightarrow> (string \<times> string) list \<Rightarrow> string \<Rightarrow> (string \<times> string) list" where
  "colorMixScaleFrom baseFor500 userProvidedShades prefix =
     (let generatedScale = foldl (generatedStep baseFor500) [] ALL_LIGHTNESS_SHADE_KEYS;
          mergedScale = spread generatedScale userProvidedShades;
          resultScale = foldl (resultStep prefix mergedScale) [] ALL_LIGHTNESS_SHADE_KEYS
      in resultScale)"

definition createColorMixLightnessScale ::
  "color_option \<Rightarrow> string \<Rightarrow> error + (string \<times> string) list option" where
  "createColorMixLightnessScale colorOption prefix =
     (if \<not> truthy colorOption then Inr None
      else
        case colorOption of
          Obj ob \<Rightarrow>
            (if \<not> truthyStr (map_of ob ''500'') then Inl (Error (missing500Message prefix))
             else
               case map_of ob ''500'' of
                 None \<Rightarrow> Inl (Error (missing500Message prefix))
               | Some baseFor500 \<Rightarrow>
                   Inr (Some (colorMixScaleFrom baseFor500
                     (foldl (userProvidedStep ob) [] ALL_LIGHTNESS_SHADE_KEYS) prefix)))
        | Str baseFor500 \<Rightarrow> Inr (Some (colorMixScaleFrom baseFor500 [] prefix))
        | Undefined \<Rightarrow> Inr None)"

section \<open>HSLA generators\<close>

text \<open>
  The lightness generator: the base at \<^verbatim>\<open>500\<close>, the light shades stepped towards
  lightness 97 and the dark shades towards lightness 12; \<open>i\<close> is the index of the
  shade in its list.
\<close>

definition generateFilledScaleFromBaseHslaColor :: "hsla \<Rightarrow> (string \<times> hsla option) list" where
  "generateFilledScaleFromBaseHslaColor base =
     (let newScale = AList.update ''500'' (Some base) createEmptyColorScale;
          lightPercentage = (TARGET_L_50_SHADE - hsla_l base) / real (length LIGHT_SHADES);
          darkPercentage = (hsla_l base - TARGET_L_900_SHADE) / real (length DARK_SHADES);
          newScale1 =
            foldl (\<lambda>scale (i, shade).
                AList.update shade (Some (changeHslaLightness base (real (i + 1) * lightPercentage))) scale)
              newScale (enumerate 0 LIGHT_SHADES);
          newScale2 =
            foldl (\<lambda>scale (i, shade).
                AList.update shade
                  (Some (changeHslaLightness base (real (i + 1) * darkPercentage * - 1))) scale)
              newScale1 (enumerate 0 DARK_SHADES)
      in newScale2)"

definition alphas :: "real list" where
  "alphas =
     [2 / 100, 3 / 100, 7 / 100, 11 / 100, 15 / 100, 28 / 100, 41 / 100, 53 / 100,
      62 / 100, 73 / 100, 78 / 100, 81 / 100, 84 / 100, 87 / 100, 92 / 100]"

text \<open>
  The alpha generator: the \<open>i\<close>-th key of the empty scale gets the \<open>i\<close>-th alpha of
  the table; the scale has as many keys as the table has entries.
\<close>

definition generateFilledAlphaScaleFromBaseHslaColor :: "hsla \<Rightarrow> (string \<times> hsla option) list" where
  "generateFilledAlphaScaleFromBaseHslaColor base =
     (let newScale = createEmptyColorScale;
          baseWithoutAlpha = setHslaAlpha base 0
      in foldl (\<lambda>scale (i, k).
             AList.update k (Some (setHslaAlpha baseWithoutAlpha (alphas ! i))) scale)
           newScale (enumerate 0 (map fst newScale)))"

section \<open>Merging and stringifying HSLA scales\<close>

definition prefixStep ::
  "(hsla \<Rightarrow> string) \<Rightarrow> string \<Rightarrow> (string \<times> hsla option) list \<Rightarrow> (string \<times> string) list
    \<Rightarrow> string \<Rightarrow> (string \<times> string) list" where
  "prefixStep toHslaString prefix scale res key =
     (case getProp scale key of
        None \<Rightarrow> res
      | Some c \<Rightarrow> AList.update (prefix @ key) (toHslaString c) res)"

definition prefixAndStringifyHslaScale ::
  "(hsla \<Rightarrow> string) \<Rightarrow> (string \<times> hsla option) list \<Rightarrow> string \<Rightarrow> (string \<times> string) list" where
  "prefixAndStringifyHslaScale toHslaString scale prefix =
     foldl (prefixStep toHslaString prefix scale) [] (map fst scale)"

text \<open>
  The entries of the user's scale, one per shade key in order: a truthy entry is
  parsed, any other is \<open>undefined\<close>; the first parse failure is thrown.
\<close>

fun hslaEntries ::
  "(string \<Rightarrow> error + hsla) \<Rightarrow> (string \<times> string) list \<Rightarrow> string list
    \<Rightarrow> error + (string \<times> hsla option) list" where
  "hslaEntries toHslaColor baseScale [] = Inr []"
| "hslaEntries toHslaColor baseScale (k # ks) =
     (case (if truthyStr (map_of baseScale k)
            then (case map_of baseScale k of
                    None \<Rightarrow> Inr None
                  | Some v \<Rightarrow> (case toHslaColor v of Inl e \<Rightarrow> Inl e | Inr c \<Rightarrow> Inr (Some c)))
            else Inr None) of
        Inl e \<Rightarrow> Inl e
      | Inr c \<Rightarrow>
          (case hslaEntries toHslaColor baseScale ks of
             Inl e \<Rightarrow> Inl e
           | Inr es \<Rightarrow> Inr ((k, c) # es)))"

text \<open>
  Called on truthy options only; on \<open>undefined\<close> the property read of the source
  raises a \<^verbatim>\<open>TypeError\<close>.
\<close>

definition userDefinedColorToHslaColorScale ::
  "(string \<Rightarrow> error + hsla) \<Rightarrow> color_option \<Rightarrow> error + (string \<times> hsla option) list" where
  "userDefinedColorToHslaColorScale toHslaColor colorOption =
     (case (case colorOption of
              Str s \<Rightarrow> Inr [(''500'', s)]
            | Obj ob \<Rightarrow> Inr ob
            | Undefined \<Rightarrow> Inl (Error ''TypeError'')) of
        Inl e \<Rightarrow> Inl e
      | Inr baseScale \<Rightarrow>
          (let hslaScale = (createEmptyColorScale :: (string \<times> hsla option) list)
           in case hslaEntries toHslaColor baseScale (map fst hslaScale) of
                Inl e \<Rightarrow> Inl e
              | Inr entries \<Rightarrow> Inr (fromEntries entries)))"

definition mergeFilledIntoUserDefinedScale ::
  "(string \<times> hsla option) list \<Rightarrow> (string \<times> hsla option) list \<Rightarrow> (string \<times> hsla option) list" where
  "mergeFilledIntoUserDefinedScale generated userDefined =
     fromEntries
       (map (\<lambda>(k, v). (k, case v of Some c \<Rightarrow> Some c | None \<Rightarrow> getProp generated k)) userDefined)"

text \<open>
  The lightness path: an object needs a truthy \<^verbatim>\<open>500\<close>. The generator reads the
  lightness of its argument, so an \<open>undefined\<close> base would raise a \<^verbatim>\<open>TypeError\<close>.
\<close>

definition fillUserProvidedScaleWithGeneratedHslaColors ::
  "(string \<Rightarrow> error + hsla) \<Rightarrow> (hsla \<Rightarrow> string) \<Rightarrow> color_option \<Rightarrow> string
    \<Rightarrow> (hsla \<Rightarrow> (string \<times> hsla option) list) \<Rightarrow> error + (string \<times> string) list option" where
  "fillUserProvidedScaleWithGeneratedHslaColors toHslaColor toHslaString colorOption prefix generator =
     (if \<not> truthy colorOption then Inr None
      else if (case colorOption of Obj ob \<Rightarrow> \<not> truthyStr (map_of ob ''500'') | _ \<Rightarrow> False)
      then Inl (Error ''You need to provide at least the 500 shade'')
      else
        case userDefinedColorToHslaColorScale toHslaColor colorOption of
          Inl e \<Rightarrow> Inl e
        | Inr userDefinedHslaColorScale \<Rightarrow>
            (case getProp userDefinedHslaColorScale ''500'' of
               None \<Rightarrow> Inl (Error ''TypeError'')
             | Some base \<Rightarrow>
                 (let filledHslaColorScale = generator base;
                      merged = mergeFilledIntoUserDefinedScale filledHslaColorScale
                                 userDefinedHslaColorScale
                  in Inr (Some (prefixAndStringifyHslaScale toHslaString merged prefix)))))"

text \<open>The \<^verbatim>\<open>reduce\<close> of the alpha path: every property of the object is parsed into the scale.\<close>

fun alphaReduce ::
  "(string \<Rightarrow> error + hsla) \<Rightarrow> (string \<times> string) list \<Rightarrow> (string \<times> hsla option) list
    \<Rightarrow> error + (string \<times> hsla option) list" where
  "alphaReduce toHslaColor [] acc = Inr acc"
| "alphaReduce toHslaColor ((key, v) # rest) acc =
     (case toHslaColor v of
        Inl e \<Rightarrow> Inl e
      | Inr c \<Rightarrow> alphaReduce toHslaColor rest (AList.update key (Some c) acc))"

definition allShadesMessage :: string where
  "allShadesMessage = ''You need to provide all the following shades: '' @ join '', '' ALL_SHADES"

text \<open>The alpha path: an object needs every shade key (\<^verbatim>\<open>key in colorOption\<close>).\<close>

definition getUserProvidedScaleOrGenerateHslaColorsScale ::
  "(string \<Rightarrow> error + hsla) \<Rightarrow> (hsla \<Rightarrow> string) \<Rightarrow> color_option \<Rightarrow> string
    \<Rightarrow> (hsla \<Rightarrow> (string \<times> hsla option) list) \<Rightarrow> error + (string \<times> string) list option" where
  "getUserProvidedScaleOrGenerateHslaColorsScale toHslaColor toHslaString colorOption prefix generator =
     (if \<not> truthy colorOption then Inr None
      else
        case colorOption of
          Obj ob \<Rightarrow>
            (if \<not> list_all (\<lambda>key. key \<in> set (map fst ob)) ALL_SHADES
             then Inl (Error allShadesMessage)
             else
               case alphaReduce toHslaColor ob createEmptyColorScale of
                 Inl e \<Rightarrow> Inl e
               | Inr scale \<Rightarrow> Inr (Some (prefixAndStringifyHslaScale toHslaString scale prefix)))
        | Str s \<Rightarrow>
            (case toHslaColor s of
               Inl e \<Rightarrow> Inl e
             | Inr hslaColor \<Rightarrow>
                 Inr (Some (prefixAndStringifyHslaScale toHslaString (generator hslaColor) prefix)))
        | Undefined \<Rightarrow> Inr None)"

definition colorOptionToHslaAlphaScale ::
  "(string \<Rightarrow> error + hsla) \<Rightarrow> (hsla \<Rightarrow> string) \<Rightarrow> color_option \<Rightarrow> string
    \<Rightarrow> error + (string \<times> string) list option" where
  "colorOptionToHslaAlphaScale toHslaColor toHslaString colorOption prefix =
     getUserProvidedScaleOrGenerateHslaColorsScale toHslaColor toHslaString colorOption prefix
       generateFilledAlphaScaleFromBaseHslaColor"

definition colorOptionToHslaLightnessScale ::
  "(string \<Rightarrow> error + hsla) \<Rightarrow> (hsla \<Rightarrow> string) \<Rightarrow> color_option \<Rightarrow> string
    \<Rightarrow> error + (string \<times> string) list option" where
  "colorOptionToHslaLightnessScale toHslaColor toHslaString colorOption prefix =
     fillUserProvidedScaleWithGeneratedHslaColors toHslaColor toHslaString colorOption prefix
       generateFilledScaleFromBaseHslaColor"

section \<open>Public entry points\<close>

text \<open>
  Both take what the capability query answers, the color module's parser and
  printer, the option, the prefix and the window, and return the result with the
  window after the call. On the \<^verbatim>\<open>color-mix\<close> branch of the alpha entry point the
  option is passed on as it is (the cast to \<^verbatim>\<open>string\<close> changes nothing at run
  time) and lands in a template literal.
\<close>

definition colorOptionToAlphaScale ::
  "bool \<Rightarrow> (string \<Rightarrow> error + hsla) \<Rightarrow> (hsla \<Rightarrow> string) \<Rightarrow> color_option \<Rightarrow> string \<Rightarrow> window
    \<Rightarrow> (error + (string \<times> string) list option) \<times> window" where
  "colorOptionToAlphaScale cssSupports toHslaColor toHslaString colorOption prefix w =
     (if \<not> truthy colorOption then (Inr None, w)
      else
        let (supported, w') = isColorMixSupported cssSupports w
        in if supported
           then (Inr (Some (createAlphaScaleWithTransparentize (templateString colorOption) prefix)), w')
           else (colorOptionToHslaAlphaScale toHslaColor toHslaString colorOption prefix, w'))"

definition colorOptionToLightnessScale ::
  "bool \<Rightarrow> (string \<Rightarrow> error + hsla) \<Rightarrow> (hsla \<Rightarrow> string) \<Rightarrow> color_option \<Rightarrow> string \<Rightarrow> window
    \<Rightarrow> (error + (string \<times> string) list option) \<times> window" where
  "colorOptionToLightnessScale cssSupports toHslaColor toHslaString colorOption prefix w =
     (if \<not> truthy colorOption then (Inr None, w)
      else
        let (supported, w') = isColorMixSupported cssSupports w
        in if supported
           then (createColorMixLightnessScale colorOption prefix, w')
           else (colorOptionToHslaLightnessScale toHslaColor toHslaString colorOption prefix, w'))"

section \<open>A sample color module\<close>

text \<open>
  A small stand-in for the color module, to run the generators on concrete
  inputs: four named colors with their HSLA values, every other string a parse
  failure; the printer writes the channels' integer parts.
\<close>

definition sampleToHslaColor :: "string \<Rightarrow> error + hsla" where
  "sampleToHslaColor str =
     (if str = ''white'' then Inr \<lparr>hsla_h = 0, hsla_s = 0, hsla_l = 100, hsla_a = 1\<rparr>
      else if str = ''black'' then Inr \<lparr>hsla_h = 0, hsla_s = 0, hsla_l = 0, hsla_a = 1\<rparr>
      else if str = ''red'' then Inr \<lparr>hsla_h = 0, hsla_s = 100, hsla_l = 50, hsla_a = 1\<rparr>
      else if str = ''blue'' then Inr \<lparr>hsla_h = 240, hsla_s = 100, hsla_l = 50, hsla_a = 1\<rparr>
      else Inl (Error (str @ '' cannot be used as a color'')))"

definition sampleToHslaString :: "hsla \<Rightarrow> string" where
  "sampleToHslaString c =
     ''hsla('' @ numberToString (Some \<lfloor>hsla_h c\<rfloor>) @ '', '' @ numberToString (Some \<lfloor>hsla_s c\<rfloor>)
       @ ''%, '' @ numberToString (Some \<lfloor>hsla_l c\<rfloor>) @ ''%, '' @ numberToString (Some \<lfloor>hsla_a c\<rfloor>)
       @ '')''"

definition freshWindow :: window where
  "freshWindow = \<lparr>ClerkCSSSupport = None\<rparr>"

section \<open>Notions used in the statements\<close>

text \<open>The value of a truthy property read; a falsy one gives \<open>None\<close>.\<close>

fun truthyVal :: "string option \<Rightarrow> string option" where
  "truthyVal None = None"
| "truthyVal (Some v) = (if v = [] then None else Some v)"

text \<open>The parser accepts a string.\<close>

definition parses :: "(string \<Rightarrow> error + hsla) \<Rightarrow> string \<Rightarrow> bool" where
  "parses toHslaColor str = (case toHslaColor str of Inl e \<Rightarrow> False | Inr c \<Rightarrow> True)"

text \<open>The parsed color of a truthy shade entry of an object.\<close>

definition parsedShade ::
  "(string \<Rightarrow> error + hsla) \<Rightarrow> (string \<times> string) list \<Rightarrow> string \<Rightarrow> hsla option" where
  "parsedShade toHslaColor baseScale k =
     (case truthyVal (map_of baseScale k) of
        None \<Rightarrow> None
      | Some v \<Rightarrow> (case toHslaColor v of Inl e \<Rightarrow> None | Inr c \<Rightarrow> Some c))"

text \<open>The parser accepts every truthy entry the object has at the keys \<open>ks\<close>.\<close>

definition shadesParse ::
  "(string \<Rightarrow> error + hsla) \<Rightarrow> (string \<times> string) list \<Rightarrow> string list \<Rightarrow> bool" where
  "shadesParse toHslaColor baseScale ks =
     list_all (\<lambda>k. case truthyVal (map_of baseScale k) of
                     None \<Rightarrow> True
                   | Some v \<Rightarrow> parses toHslaColor v) ks"

text \<open>The user's color at a shade when there is one, the generated color otherwise.\<close>

definition mergedShade ::
  "(string \<Rightarrow> error + hsla) \<Rightarrow> (string \<times> string) list \<Rightarrow> (string \<times> hsla option) list
    \<Rightarrow> string \<Rightarrow> hsla option" where
  "mergedShade toHslaColor baseScale generated k =
     (case parsedShade toHslaColor baseScale k of
        Some c \<Rightarrow> Some c
      | None \<Rightarrow> getProp generated k)"

text \<open>The entries of a scale that hold a color, in key order.\<close>

definition definedEntries :: "(string \<times> 'v option) list \<Rightarrow> (string \<times> 'v) list" where
  "definedEntries scale = List.map_filter (\<lambda>(k, v). map_option (Pair k) v) scale"

text \<open>
  A valid option of the lightness entry point: a non-empty color string the
  parser accepts, or an object with a truthy \<^verbatim>\<open>500\<close> whose truthy shade entries
  the parser accepts.
\<close>

definition validLightnessOption :: "(string \<Rightarrow> error + hsla) \<Rightarrow> color_option \<Rightarrow> bool" where
  "validLightnessOption toHslaColor colorOption =
     (case colorOption of
        Undefined \<Rightarrow> False
      | Str s \<Rightarrow> s \<noteq> [] \<and> parses toHslaColor s
      | Obj ob \<Rightarrow> truthyStr (map_of ob ''500'') \<and> shadesParse toHslaColor ob ALL_SHADES)"

text \<open>
  A valid option of the alpha entry point: a non-empty color string the parser
  accepts, or an object whose keys are the 15 shade keys and whose values the
  parser accepts.
\<close>

definition validAlphaOption :: "(string \<Rightarrow> error + hsla) \<Rightarrow> color_option \<Rightarrow> bool" where
  "validAlphaOption toHslaColor colorOption =
     (case colorOption of
        Undefined \<Rightarrow> False
      | Str s \<Rightarrow> s \<noteq> [] \<and> parses toHslaColor s
      | Obj ob \<Rightarrow> set (map fst ob) = set ALL_SHADES \<and> list_all (\<lambda>(k, v). parses toHslaColor v) ob)"

section \<open>Properties of the color primitives\<close>

subsection \<open>\<^verbatim>\<open>parseInt\<close> reads back a printed percentage\<close>

lemma decDigit_digit: "d < 10 \<Longrightarrow> decDigit (char_of (48 + d)) = Some d"
  by (simp add: decDigit_def Let_def)

lemma digitsOf_digits: "c \<in> set (digitsOf n) \<Longrightarrow> decDigit c \<noteq> None"
proof (induction n rule: digitsOf.induct)
  case (1 n)
  show ?case
  proof (cases "n < 10")
    case True
    with "1.prems" show ?thesis
      by (simp add: digitsOf.simps [of n] decDigit_digit)
  next
    case False
    with "1.prems" have "c \<in> set (digitsOf (n div 10)) \<or> c = char_of (48 + n mod 10)"
      by (auto simp: digitsOf.simps [of n])
    then show ?thesis
    proof
      assume "c \<in> set (digitsOf (n div 10))"
      with False "1.IH" show ?thesis by simp
    next
      assume "c = char_of (48 + n mod 10)"
      then show ?thesis by (simp add: decDigit_digit)
    qed
  qed
qed

lemma digitsOf_nonempty: "digitsOf n \<noteq> []"
  by (simp add: digitsOf.simps [of n])

lemma takeDigits_append_digit:
  "\<forall>c \<in> set xs. decDigit c \<noteq> None \<Longrightarrow>
   takeDigits decDigit (xs @ ys) = map (\<lambda>c. the (decDigit c)) xs @ takeDigits decDigit ys"
  by (induction xs) auto

lemma radix_digitsOf:
  "foldl (\<lambda>acc v. acc * 10 + v) a (map (\<lambda>c. the (decDigit c)) (digitsOf n))
     = a * 10 ^ length (digitsOf n) + n"
proof (induction n arbitrary: a rule: digitsOf.induct)
  case (1 n)
  show ?case
  proof (cases "n < 10")
    case True
    then show ?thesis
      by (simp add: digitsOf.simps [of n] decDigit_digit)
  next
    case False
    have "foldl (\<lambda>acc v. acc * 10 + v) a (map (\<lambda>c. the (decDigit c)) (digitsOf n))
        = (a * 10 ^ length (digitsOf (n div 10)) + n div 10) * 10 + n mod 10"
      using False "1.IH" [of a] by (simp add: digitsOf.simps [of n] decDigit_digit)
    also have "\<dots> = a * 10 ^ length (digitsOf n) + n"
      using False by (simp add: digitsOf.simps [of n] algebra_simps)
    finally show ?thesis .
  qed
qed

lemma parseInt_digitsOf: "parseInt (digitsOf n @ CHR ''%'' # rest) = Some (int n)"
proof -
  obtain c cs where ds: "digitsOf n = c # cs"
    using digitsOf_nonempty [of n] by (cases "digitsOf n") auto
  have dig: "\<forall>x \<in> set (digitsOf n). decDigit x \<noteq> None"
    using digitsOf_digits by blast
  have c: "decDigit c \<noteq> None" using dig ds by simp
  then have c1: "\<not> isWhiteSpace c" "c \<noteq> CHR ''-''" "c \<noteq> CHR ''+''"
    by (auto simp: decDigit_def isWhiteSpace_def Let_def)
  have nohex: "take 2 (digitsOf n @ CHR ''%'' # rest) \<noteq> ''0x''"
       "take 2 (digitsOf n @ CHR ''%'' # rest) \<noteq> ''0X''"
  proof -
    show "take 2 (digitsOf n @ CHR ''%'' # rest) \<noteq> ''0x''"
    proof (cases cs)
      case Nil
      with ds show ?thesis by simp
    next
      case (Cons c' cs')
      with ds dig have "decDigit c' \<noteq> None" by simp
      then have "c' \<noteq> CHR ''x''" by (auto simp: decDigit_def Let_def)
      with ds Cons show ?thesis by simp
    qed
    show "take 2 (digitsOf n @ CHR ''%'' # rest) \<noteq> ''0X''"
    proof (cases cs)
      case Nil
      with ds show ?thesis by simp
    next
      case (Cons c' cs')
      with ds dig have "decDigit c' \<noteq> None" by simp
      then have "c' \<noteq> CHR ''X''" by (auto simp: decDigit_def Let_def)
      with ds Cons show ?thesis by simp
    qed
  qed
  have pct: "takeDigits decDigit (CHR ''%'' # rest) = []"
    by (simp add: decDigit_def)
  have td: "takeDigits decDigit (digitsOf n @ CHR ''%'' # rest) = map (\<lambda>c. the (decDigit c)) (digitsOf n)"
    using takeDigits_append_digit [OF dig, of "CHR ''%'' # rest"] pct by simp
  have ne: "map (\<lambda>c. the (decDigit c)) (digitsOf n) \<noteq> []"
    using digitsOf_nonempty by simp
  have dw: "dropWhile isWhiteSpace (digitsOf n @ CHR ''%'' # rest) = digitsOf n @ CHR ''%'' # rest"
    using ds c1 by simp
  have t1: "take 1 (digitsOf n @ CHR ''%'' # rest) = [c]"
    using ds by simp
  show ?thesis
    unfolding parseInt_def dw Let_def t1
    using c1 nohex ne radix_digitsOf [of 0 n]
    by (simp add: td radixValue_def)
qed

text \<open>
  C1. For every color \<open>c\<close> and every percentage string \<open>p\<close>, \<open>darken c p\<close> is the
  \<^verbatim>\<open>color-mix\<close> expression of \<open>c\<close> weighted \<open>100 - parseInt p\<close> percent with black
  weighted 10 percent: \<open>p\<close> reaches the first operand only, the second operand is
  the constant \<^verbatim>\<open>black 10%\<close>. For a percentage \<open>n%\<close> with \<open>n \<le> 100\<close> the first
  weight is the numeral \<open>100 - n\<close>.
\<close>

theorem darken_spec:
  "darken c p = colorMix (c @ '' '' @ numberToString (minus100 (parseInt p)) @ ''%'') ''black 10%''
   \<and> darken c p =
       ''color-mix(in oklch, '' @ c @ '' '' @ numberToString (minus100 (parseInt p)) @ ''%, black 10%)''
   \<and> (n \<le> 100 \<longrightarrow>
        darken c (digitsOf n @ ''%'') =
          ''color-mix(in oklch, '' @ c @ '' '' @ digitsOf (100 - n) @ ''%, black 10%)'')"
  by (simp add: darken_def colorMix_def parseInt_digitsOf minus100_def numberToString_def
      nat_diff_distrib')

theorem darken_spec_witness:
  "(10::nat) \<le> 100 \<and> darken ''#336699'' ''10%'' = ''color-mix(in oklch, #336699 90%, black 10%)''"
proof -
  have d10: "digitsOf 10 = ''10''" by code_simp
  have d90: "digitsOf (100 - 10) = ''90''" by code_simp
  have "(10::nat) \<le> 100 \<longrightarrow>
        darken ''#336699'' (digitsOf 10 @ ''%'') =
          ''color-mix(in oklch, '' @ ''#336699'' @ '' '' @ digitsOf (100 - 10) @ ''%, black 10%)''"
    using darken_spec [of "''#336699''" "''10%''" 10] by blast
  then show ?thesis
    unfolding d10 d90 by simp
qed

section \<open>Objects as association lists\<close>

lemma update_fresh: "k \<notin> fst ` set al \<Longrightarrow> AList.update k v al = al @ [(k, v)]"
  by (induction al) auto

lemma map_filter_Cons_None: "g x = None \<Longrightarrow> List.map_filter g (x # xs) = List.map_filter g xs"
  by (simp add: List.map_filter_def)

lemma map_filter_Cons_Some: "g x = Some y \<Longrightarrow> List.map_filter g (x # xs) = y # List.map_filter g xs"
  by (simp add: List.map_filter_def)

lemma foldl_update_map_filter:
  "distinct (map fst (List.map_filter g ks)) \<Longrightarrow>
   fst ` set (List.map_filter g ks) \<inter> fst ` set acc = {} \<Longrightarrow>
   foldl (\<lambda>acc k. case g k of None \<Rightarrow> acc | Some (k', v) \<Rightarrow> AList.update k' v acc) acc ks
     = acc @ List.map_filter g ks"
proof (induction ks arbitrary: acc)
  case Nil
  then show ?case by (simp add: List.map_filter_def)
next
  case (Cons k ks)
  show ?case
  proof (cases "g k")
    case None
    with Cons show ?thesis by (simp add: map_filter_Cons_None)
  next
    case (Some p)
    obtain k' v where p: "p = (k', v)" by (cases p)
    have mf: "List.map_filter g (k # ks) = (k', v) # List.map_filter g ks"
      using Some p by (simp add: map_filter_Cons_Some)
    have fresh: "k' \<notin> fst ` set acc"
      using Cons.prems(2) unfolding mf by auto
    have d: "distinct (map fst (List.map_filter g ks))"
      using Cons.prems(1) unfolding mf by simp
    have k'new: "k' \<notin> fst ` set (List.map_filter g ks)"
      using Cons.prems(1) unfolding mf by simp
    have disj: "fst ` set (List.map_filter g ks) \<inter> fst ` set (acc @ [(k', v)]) = {}"
      using Cons.prems(2) k'new unfolding mf by auto
    show ?thesis
      using Cons.IH [OF d disj] Some p mf by (simp add: update_fresh [OF fresh])
  qed
qed

lemma spread_fresh:
  "distinct (map fst es) \<Longrightarrow> fst ` set es \<inter> fst ` set acc = {} \<Longrightarrow> spread acc es = acc @ es"
proof -
  assume a: "distinct (map fst es)" "fst ` set es \<inter> fst ` set acc = {}"
  have mf: "List.map_filter Some es = es"
    by (induction es) (simp_all add: List.map_filter_def)
  have "spread acc es =
      foldl (\<lambda>acc k. case Some k of None \<Rightarrow> acc | Some (k', v) \<Rightarrow> AList.update k' v acc) acc es"
    by (simp add: spread_def)
  also have "\<dots> = acc @ List.map_filter Some es"
    by (rule foldl_update_map_filter) (use a mf in simp_all)
  finally show ?thesis by (simp add: mf)
qed

lemma fromEntries_distinct: "distinct (map fst es) \<Longrightarrow> fromEntries es = es"
  by (simp add: fromEntries_def spread_fresh)

lemma map_of_spread:
  "distinct (map fst s) \<Longrightarrow> map_of (spread t s) = map_of t ++ map_of s"
  unfolding spread_def
proof (induction s arbitrary: t)
  case Nil
  then show ?case by simp
next
  case (Cons p s)
  obtain k v where p: "p = (k, v)" by (cases p)
  from Cons.prems p have k: "map_of s k = None" and d: "distinct (map fst s)"
    by (auto simp: map_of_eq_None_iff)
  show ?case
    using Cons.IH [OF d, of "AList.update k v t"] k p
    by (auto simp: update_conv' map_add_def fun_eq_iff split: option.splits)
qed

lemma keys_spread:
  "fst ` set s \<subseteq> fst ` set t \<Longrightarrow> map fst (spread t s) = map fst t"
  unfolding spread_def
proof (induction s arbitrary: t)
  case Nil
  then show ?case by simp
next
  case (Cons p s)
  obtain k v where p: "p = (k, v)" by (cases p)
  have keys: "map fst (AList.update k v t) = map fst t"
    using Cons.prems p by (auto simp: update_keys)
  then have "fst ` set (AList.update k v t) = fst ` set t"
    by (metis list.set_map)
  with Cons.prems have "fst ` set s \<subseteq> fst ` set (AList.update k v t)" by simp
  from Cons.IH [OF this] keys p show ?case by simp
qed

text \<open>Keys and lookups of a filtered, prefixed list.\<close>

lemma keys_map_filter_prefix:
  "map fst (List.map_filter (\<lambda>k. map_option (\<lambda>c. (prefix @ k, g c)) (h k)) ks)
     = map ((@) prefix) (filter (\<lambda>k. h k \<noteq> None) ks)"
  by (induction ks) (auto simp: List.map_filter_def)

lemma map_of_map_filter_prefix:
  "map_of (List.map_filter (\<lambda>k. map_option (\<lambda>c. (prefix @ k, g c)) (h k)) ks) (prefix @ k)
     = (if k \<in> set ks then map_option g (h k) else None)"
  by (induction ks) (auto simp: List.map_filter_def)

section \<open>The loops in closed form\<close>

lemma ALL_SHADES_eq:
  "ALL_SHADES = [''25'', ''50'', ''100'', ''150'', ''200'', ''300'', ''400'', ''500'',
                 ''600'', ''700'', ''750'', ''800'', ''850'', ''900'', ''950'']"
  by (simp add: ALL_SHADES_def LIGHT_SHADES_def DARK_SHADES_def)

lemma ALL_LIGHTNESS_SHADE_KEYS_eq: "ALL_LIGHTNESS_SHADE_KEYS = ALL_SHADES"
  by (simp add: ALL_SHADES_eq ALL_LIGHTNESS_SHADE_KEYS_def LIGHTNESS_SHADES_DEF_def)

lemma keys_createEmptyColorScale: "map fst createEmptyColorScale = ALL_SHADES"
  by (simp add: ALL_SHADES_eq createEmptyColorScale_def)

lemma keys_ALPHA_SHADES_MAP: "map fst ALPHA_SHADES_MAP = ALL_SHADES"
  by (simp add: ALL_SHADES_eq ALPHA_SHADES_MAP_def)

lemma distinct_ALL_SHADES: "distinct ALL_SHADES"
  by (simp add: ALL_SHADES_eq)

lemma length_ALL_SHADES: "length ALL_SHADES = 15"
  by (simp add: ALL_SHADES_eq)

lemma distinct_prefixed: "distinct ks \<Longrightarrow> distinct (map ((@) prefix) ks)"
  by (simp add: distinct_map inj_on_def)

lemma fold_prefixed:
  assumes "distinct ks" and "\<forall>k \<in> set ks. p @ k \<notin> fst ` set acc"
  shows "foldl (\<lambda>acc k. case h k of None \<Rightarrow> acc | Some c \<Rightarrow> AList.update (p @ k) (g c) acc) acc ks
           = acc @ List.map_filter (\<lambda>k. map_option (\<lambda>c. (p @ k, g c)) (h k)) ks"
proof -
  let ?G = "\<lambda>k. map_option (\<lambda>c. (p @ k, g c)) (h k)"
  have fn: "(\<lambda>acc k. case h k of None \<Rightarrow> acc | Some c \<Rightarrow> AList.update (p @ k) (g c) acc)
          = (\<lambda>acc k. case ?G k of None \<Rightarrow> acc | Some (k', v) \<Rightarrow> AList.update k' v acc)"
    by (intro ext) (simp split: option.splits)
  have keys: "map fst (List.map_filter ?G ks) = map ((@) p) (filter (\<lambda>k. h k \<noteq> None) ks)"
    by (rule keys_map_filter_prefix)
  have d: "distinct (map fst (List.map_filter ?G ks))"
    unfolding keys using assms(1) by (simp add: distinct_prefixed)
  have "fst ` set (List.map_filter ?G ks) = set (map fst (List.map_filter ?G ks))"
    by simp
  also have "\<dots> \<subseteq> (@) p ` set ks"
    unfolding keys by auto
  finally have sub: "fst ` set (List.map_filter ?G ks) \<subseteq> (@) p ` set ks" .
  have disj: "fst ` set (List.map_filter ?G ks) \<inter> fst ` set acc = {}"
  proof -
    have False if "x \<in> fst ` set (List.map_filter ?G ks)" and "x \<in> fst ` set acc" for x
    proof -
      from that(1) sub obtain k where "k \<in> set ks" and "x = p @ k" by blast
      with assms(2) that(2) show False by auto
    qed
    then show ?thesis by blast
  qed
  show ?thesis
    unfolding fn by (rule foldl_update_map_filter [OF d disj])
qed

lemma prefixAndStringify_closed:
  assumes "distinct (map fst scale)"
  shows "prefixAndStringifyHslaScale str scale prefix
           = List.map_filter (\<lambda>k. map_option (\<lambda>c. (prefix @ k, str c)) (getProp scale k)) (map fst scale)"
proof -
  have fn: "prefixStep str prefix scale
          = (\<lambda>acc k. case getProp scale k of None \<Rightarrow> acc | Some c \<Rightarrow> AList.update (prefix @ k) (str c) acc)"
    by (intro ext) (simp add: prefixStep_def)
  show ?thesis
    unfolding prefixAndStringifyHslaScale_def fn
    using fold_prefixed [where ks = "map fst scale" and p = prefix and acc = "[]"
        and h = "getProp scale" and g = str] assms by simp
qed

lemma userProvided_closed:
  "foldl (userProvidedStep ob) [] ALL_LIGHTNESS_SHADE_KEYS
     = List.map_filter (\<lambda>k. map_option (\<lambda>c. ([] @ k, id c)) (truthyVal (map_of ob k))) ALL_SHADES"
proof -
  have fn: "userProvidedStep ob
          = (\<lambda>acc k. case truthyVal (map_of ob k) of None \<Rightarrow> acc | Some c \<Rightarrow> AList.update ([] @ k) (id c) acc)"
    by (intro ext) (simp add: userProvidedStep_def split: option.splits)
  show ?thesis
    unfolding fn ALL_LIGHTNESS_SHADE_KEYS_eq
    using fold_prefixed [where ks = ALL_SHADES and p = "[]" and acc = "[]"
        and h = "\<lambda>k. truthyVal (map_of ob k)" and g = id] distinct_ALL_SHADES by simp
qed

lemma result_closed:
  "foldl (resultStep prefix m) [] ALL_LIGHTNESS_SHADE_KEYS
     = List.map_filter (\<lambda>k. map_option (\<lambda>c. (prefix @ k, id c)) (truthyVal (map_of m k))) ALL_SHADES"
proof -
  have fn: "resultStep prefix m
          = (\<lambda>acc k. case truthyVal (map_of m k) of None \<Rightarrow> acc | Some c \<Rightarrow> AList.update (prefix @ k) (id c) acc)"
    by (intro ext) (simp add: resultStep_def split: option.splits)
  show ?thesis
    unfolding fn ALL_LIGHTNESS_SHADE_KEYS_eq
    using fold_prefixed [where ks = ALL_SHADES and p = prefix and acc = "[]"
        and h = "\<lambda>k. truthyVal (map_of m k)" and g = id] distinct_ALL_SHADES by simp
qed

lemma generated_closed:
  "foldl (generatedStep b) [] ALL_LIGHTNESS_SHADE_KEYS =
     [(''25'', lighten b ''92%''), (''50'', lighten b ''85%''), (''100'', lighten b ''70%''),
      (''150'', lighten b ''55%''), (''200'', lighten b ''40%''), (''300'', lighten b ''25%''),
      (''400'', lighten b ''10%''), (''500'', b), (''600'', darken b ''10%''),
      (''700'', darken b ''25%''), (''750'', darken b ''40%''), (''800'', darken b ''55%''),
      (''850'', darken b ''70%''), (''900'', darken b ''85%''), (''950'', darken b ''92%'')]"
  by (simp add: generatedStep_def ALL_LIGHTNESS_SHADE_KEYS_def LIGHTNESS_SHADES_DEF_def)

lemma lighten_nonempty: "lighten c p \<noteq> []"
  by (simp add: lighten_def colorMix_def)

lemma darken_nonempty: "darken c p \<noteq> []"
  by (simp add: darken_def colorMix_def)

lemma generated_truthy:
  assumes "b \<noteq> []" and "k \<in> set ALL_SHADES"
  shows "\<exists>v. map_of (foldl (generatedStep b) [] ALL_LIGHTNESS_SHADE_KEYS) k = Some v \<and> v \<noteq> []"
  using assms unfolding generated_closed ALL_SHADES_eq
  by (auto simp: lighten_nonempty darken_nonempty)

lemma keys_generated: "map fst (foldl (generatedStep b) [] ALL_LIGHTNESS_SHADE_KEYS) = ALL_SHADES"
  unfolding generated_closed ALL_SHADES_eq by simp

lemma truthyVal_Some: "truthyVal x = Some v \<longleftrightarrow> x = Some v \<and> v \<noteq> []"
  by (cases x) auto

lemma truthyVal_truthyStr: "truthyStr x \<longleftrightarrow> truthyVal x \<noteq> None"
  by (cases x) auto

lemma filter_all: "\<forall>x \<in> set xs. P x \<Longrightarrow> filter P xs = xs"
  by (induction xs) auto

subsection \<open>Prefixing a full scale\<close>

lemma prefixAndStringify_keys:
  assumes "map fst scale = ALL_SHADES" and "\<forall>k \<in> set ALL_SHADES. getProp scale k \<noteq> None"
  shows "map fst (prefixAndStringifyHslaScale str scale prefix) = map ((@) prefix) ALL_SHADES"
proof -
  have d: "distinct (map fst scale)" using assms(1) distinct_ALL_SHADES by simp
  show ?thesis
    unfolding prefixAndStringify_closed [OF d] keys_map_filter_prefix assms(1)
    using assms(2) by (simp add: filter_all)
qed

lemma prefixAndStringify_lookup:
  assumes "map fst scale = ALL_SHADES" and "k \<in> set ALL_SHADES"
  shows "map_of (prefixAndStringifyHslaScale str scale prefix) (prefix @ k)
           = map_option str (getProp scale k)"
proof -
  have d: "distinct (map fst scale)" using assms(1) distinct_ALL_SHADES by simp
  show ?thesis
    unfolding prefixAndStringify_closed [OF d] map_of_map_filter_prefix assms(1)
    using assms(2) by simp
qed

subsection \<open>The lightness scale by \<^verbatim>\<open>color-mix\<close>\<close>

lemma userProvided_lookup:
  "map_of (foldl (userProvidedStep ob) [] ALL_LIGHTNESS_SHADE_KEYS) k
     = (if k \<in> set ALL_SHADES then truthyVal (map_of ob k) else None)"
proof -
  have "map_of (List.map_filter (\<lambda>k. map_option (\<lambda>c. ([] @ k, id c)) (truthyVal (map_of ob k))) ALL_SHADES) ([] @ k)
      = (if k \<in> set ALL_SHADES then map_option id (truthyVal (map_of ob k)) else None)"
    by (rule map_of_map_filter_prefix)
  then show ?thesis
    unfolding userProvided_closed by (simp add: option.map_id)
qed

lemma userProvided_distinct:
  "distinct (map fst (foldl (userProvidedStep ob) [] ALL_LIGHTNESS_SHADE_KEYS))"
  unfolding userProvided_closed keys_map_filter_prefix
  using distinct_ALL_SHADES by (simp add: distinct_map inj_on_def)

lemma colorMixScaleFrom_merged:
  assumes b: "b \<noteq> []" and d: "distinct (map fst user)"
    and ne: "\<And>k v. map_of user k = Some v \<Longrightarrow> v \<noteq> []"
    and k: "k \<in> set ALL_SHADES"
  shows "\<exists>v. truthyVal (map_of (spread (foldl (generatedStep b) [] ALL_LIGHTNESS_SHADE_KEYS) user) k) = Some v
           \<and> (\<forall>x. map_of user k = Some x \<longrightarrow> v = x)"
proof -
  obtain g where g: "map_of (foldl (generatedStep b) [] ALL_LIGHTNESS_SHADE_KEYS) k = Some g" "g \<noteq> []"
    using generated_truthy [OF b k] by blast
  show ?thesis
  proof (cases "map_of user k")
    case None
    with g show ?thesis
      by (simp add: map_of_spread [OF d] map_add_def)
  next
    case (Some x)
    with ne [OF Some] show ?thesis
      by (simp add: map_of_spread [OF d] map_add_def)
  qed
qed

lemma colorMixScaleFrom_keys:
  assumes b: "b \<noteq> []" and d: "distinct (map fst user)"
    and ne: "\<And>k v. map_of user k = Some v \<Longrightarrow> v \<noteq> []"
  shows "map fst (colorMixScaleFrom b user prefix) = map ((@) prefix) ALL_SHADES"
proof -
  have "\<forall>k \<in> set ALL_SHADES.
          truthyVal (map_of (spread (foldl (generatedStep b) [] ALL_LIGHTNESS_SHADE_KEYS) user) k) \<noteq> None"
    using colorMixScaleFrom_merged [OF b d ne] by fastforce
  then show ?thesis
    unfolding colorMixScaleFrom_def Let_def result_closed keys_map_filter_prefix
    by (simp add: filter_all)
qed

lemma colorMixScaleFrom_override:
  assumes b: "b \<noteq> []" and d: "distinct (map fst user)"
    and ne: "\<And>k v. map_of user k = Some v \<Longrightarrow> v \<noteq> []"
    and k: "k \<in> set ALL_SHADES" and x: "map_of user k = Some x"
  shows "map_of (colorMixScaleFrom b user prefix) (prefix @ k) = Some x"
proof -
  have "truthyVal (map_of (spread (foldl (generatedStep b) [] ALL_LIGHTNESS_SHADE_KEYS) user) k) = Some x"
    using colorMixScaleFrom_merged [OF b d ne k] x by auto
  then show ?thesis
    unfolding colorMixScaleFrom_def Let_def result_closed map_of_map_filter_prefix
    using k by simp
qed

lemma createColorMix_Str:
  "s \<noteq> [] \<Longrightarrow> \<exists>res. createColorMixLightnessScale (Str s) prefix = Inr (Some res)
      \<and> map fst res = map ((@) prefix) ALL_SHADES"
  using colorMixScaleFrom_keys [of s "[]" prefix]
  by (simp add: createColorMixLightnessScale_def)

lemma createColorMix_Obj:
  assumes "truthyStr (map_of ob ''500'')"
  shows "\<exists>res. createColorMixLightnessScale (Obj ob) prefix = Inr (Some res)
      \<and> map fst res = map ((@) prefix) ALL_SHADES
      \<and> (\<forall>k x. k \<in> set ALL_SHADES \<longrightarrow> map_of ob k = Some x \<longrightarrow> x \<noteq> [] \<longrightarrow>
            map_of res (prefix @ k) = Some x)"
proof -
  from assms obtain b where b: "map_of ob ''500'' = Some b" "b \<noteq> []"
    by (cases "map_of ob ''500''") auto
  let ?user = "foldl (userProvidedStep ob) [] ALL_LIGHTNESS_SHADE_KEYS"
  have ne: "\<And>k v. map_of ?user k = Some v \<Longrightarrow> v \<noteq> []"
    by (auto simp: userProvided_lookup truthyVal_Some split: if_splits)
  have res: "createColorMixLightnessScale (Obj ob) prefix = Inr (Some (colorMixScaleFrom b ?user prefix))"
    using b by (simp add: createColorMixLightnessScale_def)
  have keys: "map fst (colorMixScaleFrom b ?user prefix) = map ((@) prefix) ALL_SHADES"
    by (rule colorMixScaleFrom_keys [OF b(2) userProvided_distinct ne])
  have ov: "map_of (colorMixScaleFrom b ?user prefix) (prefix @ k) = Some x"
    if "k \<in> set ALL_SHADES" "map_of ob k = Some x" "x \<noteq> []" for k x
  proof -
    have "map_of ?user k = Some x"
      using that by (simp add: userProvided_lookup)
    from colorMixScaleFrom_override [OF b(2) userProvided_distinct ne that(1) this]
    show ?thesis .
  qed
  show ?thesis
    using res keys ov by blast
qed

section \<open>The HSLA generators and paths\<close>

lemma generateFilledScale_eq:
  "generateFilledScaleFromBaseHslaColor b =
     (let lightStep = (97 - hsla_l b) / 7; darkStep = (hsla_l b - 12) / 7 in
      [(''25'', Some (b\<lparr>hsla_l := hsla_l b + 7 * lightStep\<rparr>)),
       (''50'', Some (b\<lparr>hsla_l := hsla_l b + 6 * lightStep\<rparr>)),
       (''100'', Some (b\<lparr>hsla_l := hsla_l b + 5 * lightStep\<rparr>)),
       (''150'', Some (b\<lparr>hsla_l := hsla_l b + 4 * lightStep\<rparr>)),
       (''200'', Some (b\<lparr>hsla_l := hsla_l b + 3 * lightStep\<rparr>)),
       (''300'', Some (b\<lparr>hsla_l := hsla_l b + 2 * lightStep\<rparr>)),
       (''400'', Some (b\<lparr>hsla_l := hsla_l b + 1 * lightStep\<rparr>)),
       (''500'', Some b),
       (''600'', Some (b\<lparr>hsla_l := hsla_l b - 1 * darkStep\<rparr>)),
       (''700'', Some (b\<lparr>hsla_l := hsla_l b - 2 * darkStep\<rparr>)),
       (''750'', Some (b\<lparr>hsla_l := hsla_l b - 3 * darkStep\<rparr>)),
       (''800'', Some (b\<lparr>hsla_l := hsla_l b - 4 * darkStep\<rparr>)),
       (''850'', Some (b\<lparr>hsla_l := hsla_l b - 5 * darkStep\<rparr>)),
       (''900'', Some (b\<lparr>hsla_l := hsla_l b - 6 * darkStep\<rparr>)),
       (''950'', Some (b\<lparr>hsla_l := hsla_l b - 7 * darkStep\<rparr>))])"
  by (simp add: generateFilledScaleFromBaseHslaColor_def createEmptyColorScale_def
      LIGHT_SHADES_def DARK_SHADES_def TARGET_L_50_SHADE_def TARGET_L_900_SHADE_def
      changeHslaLightness_def Let_def)

lemma generateFilledAlphaScale_eq:
  "generateFilledAlphaScaleFromBaseHslaColor b =
     [(''25'', Some (b\<lparr>hsla_a := 2 / 100\<rparr>)),
      (''50'', Some (b\<lparr>hsla_a := 3 / 100\<rparr>)),
      (''100'', Some (b\<lparr>hsla_a := 7 / 100\<rparr>)),
      (''150'', Some (b\<lparr>hsla_a := 11 / 100\<rparr>)),
      (''200'', Some (b\<lparr>hsla_a := 15 / 100\<rparr>)),
      (''300'', Some (b\<lparr>hsla_a := 28 / 100\<rparr>)),
      (''400'', Some (b\<lparr>hsla_a := 41 / 100\<rparr>)),
      (''500'', Some (b\<lparr>hsla_a := 53 / 100\<rparr>)),
      (''600'', Some (b\<lparr>hsla_a := 62 / 100\<rparr>)),
      (''700'', Some (b\<lparr>hsla_a := 73 / 100\<rparr>)),
      (''750'', Some (b\<lparr>hsla_a := 78 / 100\<rparr>)),
      (''800'', Some (b\<lparr>hsla_a := 81 / 100\<rparr>)),
      (''850'', Some (b\<lparr>hsla_a := 84 / 100\<rparr>)),
      (''900'', Some (b\<lparr>hsla_a := 87 / 100\<rparr>)),
      (''950'', Some (b\<lparr>hsla_a := 92 / 100\<rparr>))]"
  by (simp add: generateFilledAlphaScaleFromBaseHslaColor_def createEmptyColorScale_def
      setHslaAlpha_def alphas_def Let_def)

lemma generateFilledScale_keys:
  "map fst (generateFilledScaleFromBaseHslaColor b) = ALL_SHADES"
  unfolding generateFilledScale_eq ALL_SHADES_eq Let_def by simp

lemma generateFilledScale_defined:
  "list_all (\<lambda>k. getProp (generateFilledScaleFromBaseHslaColor b) k \<noteq> None) ALL_SHADES"
  unfolding generateFilledScale_eq ALL_SHADES_eq Let_def getProp_def by simp

lemma generateFilledAlphaScale_keys:
  "map fst (generateFilledAlphaScaleFromBaseHslaColor b) = ALL_SHADES"
  unfolding generateFilledAlphaScale_eq ALL_SHADES_eq by simp

lemma generateFilledAlphaScale_defined:
  "list_all (\<lambda>k. getProp (generateFilledAlphaScaleFromBaseHslaColor b) k \<noteq> None) ALL_SHADES"
  unfolding generateFilledAlphaScale_eq ALL_SHADES_eq getProp_def by simp

subsection \<open>The HSLA lightness path\<close>

lemma hslaEntries_ok:
  "shadesParse f base ks \<Longrightarrow> hslaEntries f base ks = Inr (map (\<lambda>k. (k, parsedShade f base k)) ks)"
proof (induction ks)
  case Nil
  then show ?case by simp
next
  case (Cons k ks)
  then have ih: "hslaEntries f base ks = Inr (map (\<lambda>k. (k, parsedShade f base k)) ks)"
    by (simp add: shadesParse_def)
  from Cons.prems have hd: "case truthyVal (map_of base k) of None \<Rightarrow> True | Some v \<Rightarrow> parses f v"
    by (simp add: shadesParse_def)
  show ?case
  proof (cases "map_of base k")
    case None
    then show ?thesis using ih by (simp add: parsedShade_def)
  next
    case (Some v)
    show ?thesis
    proof (cases "v = []")
      case True
      with Some ih show ?thesis by (simp add: parsedShade_def)
    next
      case False
      with Some hd obtain c where "f v = Inr c"
        by (auto simp: parses_def split: sum.splits)
      with Some False ih show ?thesis by (simp add: parsedShade_def)
    qed
  qed
qed

lemma map_of_keyed: "map_of (map (\<lambda>k. (k, F k)) ks) k = (if k \<in> set ks then Some (F k) else None)"
  by (induction ks) auto

lemma userDefined_closed:
  assumes "shadesParse f base ALL_SHADES"
  shows "(case hslaEntries f base (map fst (createEmptyColorScale :: (string \<times> hsla option) list)) of
            Inl e \<Rightarrow> Inl e | Inr entries \<Rightarrow> Inr (fromEntries entries))
         = Inr (map (\<lambda>k. (k, parsedShade f base k)) ALL_SHADES)"
proof -
  have "distinct (map fst (map (\<lambda>k. (k, parsedShade f base k)) ALL_SHADES))"
    using distinct_ALL_SHADES by (simp add: comp_def)
  then show ?thesis
    unfolding keys_createEmptyColorScale hslaEntries_ok [OF assms]
    by (simp add: fromEntries_distinct)
qed

lemma merge_closed:
  "mergeFilledIntoUserDefinedScale generated (map (\<lambda>k. (k, parsedShade f base k)) ALL_SHADES)
     = map (\<lambda>k. (k, mergedShade f base generated k)) ALL_SHADES"
proof -
  have eq: "map (\<lambda>(k, v). (k, case v of Some c \<Rightarrow> Some c | None \<Rightarrow> getProp generated k))
              (map (\<lambda>k. (k, parsedShade f base k)) ALL_SHADES)
          = map (\<lambda>k. (k, mergedShade f base generated k)) ALL_SHADES"
    by (simp add: mergedShade_def comp_def)
  have "distinct (map fst (map (\<lambda>k. (k, mergedShade f base generated k)) ALL_SHADES))"
    using distinct_ALL_SHADES by (simp add: comp_def)
  then show ?thesis
    unfolding mergeFilledIntoUserDefinedScale_def eq by (rule fromEntries_distinct)
qed

lemma fill_closed:
  assumes tr: "truthy c"
    and base: "base = (case c of Str s \<Rightarrow> [(''500'', s)] | Obj ob \<Rightarrow> ob | Undefined \<Rightarrow> [])"
    and b: "truthyStr (map_of base ''500'')"
    and ok: "shadesParse f base ALL_SHADES"
  shows "\<exists>b. parsedShade f base ''500'' = Some b \<and>
           fillUserProvidedScaleWithGeneratedHslaColors f str c prefix generator
             = Inr (Some (prefixAndStringifyHslaScale str
                 (map (\<lambda>k. (k, mergedShade f base (generator b) k)) ALL_SHADES) prefix))"
proof -
  have in500: "''500'' \<in> set ALL_SHADES" by (simp add: ALL_SHADES_eq)
  from b obtain v where v: "map_of base ''500'' = Some v" "v \<noteq> []"
    by (cases "map_of base ''500''") auto
  from ok in500 have "case truthyVal (map_of base ''500'') of None \<Rightarrow> True | Some v \<Rightarrow> parses f v"
    unfolding shadesParse_def list_all_iff by blast
  with v obtain b0 where b0: "f v = Inr b0"
    by (auto simp: parses_def split: sum.splits)
  have p500: "parsedShade f base ''500'' = Some b0"
    using v b0 by (simp add: parsedShade_def)
  have ud: "userDefinedColorToHslaColorScale f c = Inr (map (\<lambda>k. (k, parsedShade f base k)) ALL_SHADES)"
    using tr base userDefined_closed [OF ok]
    by (cases c) (simp_all add: userDefinedColorToHslaColorScale_def Let_def)
  have g500: "getProp (map (\<lambda>k. (k, parsedShade f base k)) ALL_SHADES) ''500'' = Some b0"
    using in500 p500 by (simp add: getProp_def map_of_keyed)
  have guard: "\<not> (case c of Obj ob \<Rightarrow> \<not> truthyStr (map_of ob ''500'') | _ \<Rightarrow> False)"
    using b base by (cases c) simp_all
  have "fillUserProvidedScaleWithGeneratedHslaColors f str c prefix generator
      = Inr (Some (prefixAndStringifyHslaScale str
          (map (\<lambda>k. (k, mergedShade f base (generator b0) k)) ALL_SHADES) prefix))"
    unfolding fillUserProvidedScaleWithGeneratedHslaColors_def
    using tr guard by (simp add: ud g500 merge_closed Let_def)
  with p500 show ?thesis by blast
qed

subsection \<open>The HSLA alpha path\<close>

lemma alphaReduce_ok:
  "list_all (\<lambda>(k, v). parses f v) ob \<Longrightarrow> fst ` set ob \<subseteq> fst ` set acc \<Longrightarrow>
   \<exists>scale. alphaReduce f ob acc = Inr scale \<and> map fst scale = map fst acc
     \<and> (\<forall>k. k \<notin> fst ` set ob \<longrightarrow> getProp scale k = getProp acc k)
     \<and> (\<forall>k. k \<in> fst ` set ob \<longrightarrow> getProp scale k \<noteq> None)"
proof (induction ob arbitrary: acc)
  case Nil
  then show ?case by simp
next
  case (Cons p ob)
  obtain key v where p: "p = (key, v)" by (cases p)
  from Cons.prems p obtain c where c: "f v = Inr c"
    by (auto simp: parses_def split: sum.splits)
  let ?acc = "AList.update key (Some c) acc"
  have keys: "map fst ?acc = map fst acc"
    using Cons.prems(2) p by (auto simp: update_keys)
  have "set (map fst ?acc) = set (map fst acc)"
    using keys by simp
  then have keyset: "fst ` set ?acc = fst ` set acc"
    by simp
  have pre: "list_all (\<lambda>(k, v). parses f v) ob" "fst ` set ob \<subseteq> fst ` set ?acc"
    using Cons.prems keyset by auto
  from Cons.IH [OF pre] obtain scale where
    s1: "alphaReduce f ob ?acc = Inr scale" and s2: "map fst scale = map fst ?acc"
    and s3: "\<And>k. k \<notin> fst ` set ob \<Longrightarrow> getProp scale k = getProp ?acc k"
    and s4: "\<And>k. k \<in> fst ` set ob \<Longrightarrow> getProp scale k \<noteq> None"
    by blast
  have acc_key: "getProp ?acc k = (if k = key then Some c else getProp acc k)" for k
    by (simp add: getProp_def update_conv')
  have r1: "alphaReduce f (p # ob) acc = Inr scale"
    using p c s1 by simp
  have r2: "map fst scale = map fst acc"
    using s2 keys by simp
  have r3: "getProp scale k = getProp acc k" if "k \<notin> fst ` set (p # ob)" for k
  proof -
    from that p have "k \<notin> fst ` set ob" and "k \<noteq> key" by auto
    then show ?thesis using s3 [of k] acc_key [of k] by simp
  qed
  have r4: "getProp scale k \<noteq> None" if "k \<in> fst ` set (p # ob)" for k
  proof (cases "k \<in> fst ` set ob")
    case True
    then show ?thesis by (rule s4)
  next
    case False
    with that p have "k = key" by auto
    with False show ?thesis using s3 [of k] acc_key [of k] by simp
  qed
  show ?case
    using r1 r2 r3 r4 by blast
qed

section \<open>Properties of the HSLA generators\<close>

text \<open>
  C5. For every base color \<open>b\<close> the lightness generator returns \<open>b\<close> unchanged at
  \<^verbatim>\<open>500\<close>; with \<open>lightStep = (97 - l) / 7\<close> and \<open>darkStep = (l - 12) / 7\<close>, where \<open>l\<close>
  is the lightness of \<open>b\<close>, the \<open>i\<close>-th light shade (\<^verbatim>\<open>400\<close> is the first, \<^verbatim>\<open>25\<close> the
  seventh) is \<open>b\<close> with lightness \<open>l + i * lightStep\<close> and the \<open>i\<close>-th dark shade
  (\<^verbatim>\<open>600\<close> is the first, \<^verbatim>\<open>950\<close> the seventh) is \<open>b\<close> with lightness
  \<open>l - i * darkStep\<close>; hue, saturation and alpha are those of \<open>b\<close>.
\<close>

theorem generateFilledScale_spec:
  "generateFilledScaleFromBaseHslaColor b =
     (let lightStep = (97 - hsla_l b) / 7; darkStep = (hsla_l b - 12) / 7 in
      [(''25'', Some (b\<lparr>hsla_l := hsla_l b + 7 * lightStep\<rparr>)),
       (''50'', Some (b\<lparr>hsla_l := hsla_l b + 6 * lightStep\<rparr>)),
       (''100'', Some (b\<lparr>hsla_l := hsla_l b + 5 * lightStep\<rparr>)),
       (''150'', Some (b\<lparr>hsla_l := hsla_l b + 4 * lightStep\<rparr>)),
       (''200'', Some (b\<lparr>hsla_l := hsla_l b + 3 * lightStep\<rparr>)),
       (''300'', Some (b\<lparr>hsla_l := hsla_l b + 2 * lightStep\<rparr>)),
       (''400'', Some (b\<lparr>hsla_l := hsla_l b + 1 * lightStep\<rparr>)),
       (''500'', Some b),
       (''600'', Some (b\<lparr>hsla_l := hsla_l b - 1 * darkStep\<rparr>)),
       (''700'', Some (b\<lparr>hsla_l := hsla_l b - 2 * darkStep\<rparr>)),
       (''750'', Some (b\<lparr>hsla_l := hsla_l b - 3 * darkStep\<rparr>)),
       (''800'', Some (b\<lparr>hsla_l := hsla_l b - 4 * darkStep\<rparr>)),
       (''850'', Some (b\<lparr>hsla_l := hsla_l b - 5 * darkStep\<rparr>)),
       (''900'', Some (b\<lparr>hsla_l := hsla_l b - 6 * darkStep\<rparr>)),
       (''950'', Some (b\<lparr>hsla_l := hsla_l b - 7 * darkStep\<rparr>))])
   \<and> LIGHT_SHADES = [''400'', ''300'', ''200'', ''150'', ''100'', ''50'', ''25'']
   \<and> DARK_SHADES = [''600'', ''700'', ''750'', ''800'', ''850'', ''900'', ''950'']
   \<and> map fst (generateFilledScaleFromBaseHslaColor b) = ALL_SHADES"
proof (intro conjI)
  show "LIGHT_SHADES = [''400'', ''300'', ''200'', ''150'', ''100'', ''50'', ''25'']"
    by (simp add: LIGHT_SHADES_def)
  show "DARK_SHADES = [''600'', ''700'', ''750'', ''800'', ''850'', ''900'', ''950'']"
    by (simp add: DARK_SHADES_def)
  show "map fst (generateFilledScaleFromBaseHslaColor b) = ALL_SHADES"
    by (rule generateFilledScale_keys)
qed (rule generateFilledScale_eq)

text \<open>
  C8. For every base color \<open>b\<close> the alpha generator returns, for the 15 shade
  keys in order, the color with the hue, saturation and lightness of \<open>b\<close> and
  the alpha of the fixed table at the index of the shade; the table is
  non-decreasing, and the result does not depend on the alpha of \<open>b\<close>.
\<close>

theorem generateFilledAlphaScale_spec:
  "generateFilledAlphaScaleFromBaseHslaColor b =
     map (\<lambda>(k, alpha). (k, Some \<lparr>hsla_h = hsla_h b, hsla_s = hsla_s b, hsla_l = hsla_l b, hsla_a = alpha\<rparr>))
       (zip ALL_SHADES alphas)
   \<and> alphas = [0.02, 0.03, 0.07, 0.11, 0.15, 0.28, 0.41, 0.53, 0.62, 0.73, 0.78, 0.81, 0.84, 0.87, 0.92]
   \<and> length alphas = length ALL_SHADES
   \<and> sorted alphas
   \<and> generateFilledAlphaScaleFromBaseHslaColor (b\<lparr>hsla_a := x\<rparr>)
       = generateFilledAlphaScaleFromBaseHslaColor b"
proof (intro conjI)
  show "generateFilledAlphaScaleFromBaseHslaColor b =
     map (\<lambda>(k, alpha). (k, Some \<lparr>hsla_h = hsla_h b, hsla_s = hsla_s b, hsla_l = hsla_l b, hsla_a = alpha\<rparr>))
       (zip ALL_SHADES alphas)"
    unfolding generateFilledAlphaScale_eq ALL_SHADES_eq alphas_def by simp
  show "alphas = [0.02, 0.03, 0.07, 0.11, 0.15, 0.28, 0.41, 0.53, 0.62, 0.73, 0.78, 0.81, 0.84, 0.87, 0.92]"
    by (simp add: alphas_def)
  show "length alphas = length ALL_SHADES"
    by (simp add: alphas_def ALL_SHADES_eq)
  show "sorted alphas"
    by (simp add: alphas_def)
  show "generateFilledAlphaScaleFromBaseHslaColor (b\<lparr>hsla_a := x\<rparr>)
       = generateFilledAlphaScaleFromBaseHslaColor b"
    unfolding generateFilledAlphaScale_eq by simp
qed




section \<open>Monotone lightness\<close>

lemma sorted_ladder:
  fixes x s d :: real
  assumes "0 \<le> s" and "0 \<le> d"
  shows "sorted [x - 7 * d, x - 6 * d, x - 5 * d, x - 4 * d, x - 3 * d, x - 2 * d, x - 1 * d, x,
                 x + 1 * s, x + 2 * s, x + 3 * s, x + 4 * s, x + 5 * s, x + 6 * s, x + 7 * s]"
  using assms by simp

lemma lightness_ladder_sorted:
  assumes "12 \<le> hsla_l b" and "hsla_l b \<le> 97"
  shows "sorted (rev (map (\<lambda>(k, c). hsla_l c) (definedEntries (generateFilledScaleFromBaseHslaColor b))))"
proof -
  have s: "0 \<le> (97 - hsla_l b) / 7" and d: "0 \<le> (hsla_l b - 12) / 7"
    using assms by simp_all
  have "rev (map (\<lambda>(k, c). hsla_l c) (definedEntries (generateFilledScaleFromBaseHslaColor b)))
      = (let x = hsla_l b; s = (97 - hsla_l b) / 7; d = (hsla_l b - 12) / 7 in
          [x - 7 * d, x - 6 * d, x - 5 * d, x - 4 * d, x - 3 * d, x - 2 * d, x - 1 * d, x,
           x + 1 * s, x + 2 * s, x + 3 * s, x + 4 * s, x + 5 * s, x + 6 * s, x + 7 * s])"
    unfolding generateFilledScale_eq by (simp add: definedEntries_def List.map_filter_def Let_def)
  then show ?thesis
    using sorted_ladder [OF s d, of "hsla_l b"] by (simp add: Let_def)
qed

lemma definedEntries_keys_generateFilledScale:
  "map fst (definedEntries (generateFilledScaleFromBaseHslaColor b)) = ALL_SHADES"
  unfolding generateFilledScale_eq ALL_SHADES_eq
  by (simp add: definedEntries_def List.map_filter_def Let_def)

lemma map_filter_entries:
  "\<forall>(k, v) \<in> set xs. h k = v \<Longrightarrow>
   List.map_filter (\<lambda>k. map_option (\<lambda>c. (p @ k, g c)) (h k)) (map fst xs)
     = map (\<lambda>(k, c). (p @ k, g c)) (List.map_filter (\<lambda>(k, v). map_option (Pair k) v) xs)"
  by (induction xs) (auto simp: List.map_filter_def)

lemma prefixAndStringify_definedEntries:
  assumes "distinct (map fst scale)"
  shows "prefixAndStringifyHslaScale str scale prefix
           = map (\<lambda>(k, c). (prefix @ k, str c)) (definedEntries scale)"
proof -
  have "\<forall>(k, v) \<in> set scale. getProp scale k = v"
    using assms by (auto simp: getProp_def)
  then show ?thesis
    unfolding prefixAndStringify_closed [OF assms] definedEntries_def
    by (rule map_filter_entries)
qed

lemma merged_string_option:
  assumes "s \<noteq> []" and "f s = Inr b"
  shows "map (\<lambda>k. (k, mergedShade f [(''500'', s)] (generateFilledScaleFromBaseHslaColor b) k)) ALL_SHADES
           = generateFilledScaleFromBaseHslaColor b"
  using assms unfolding generateFilledScale_eq ALL_SHADES_eq
  by (simp add: mergedShade_def parsedShade_def getProp_def Let_def)

lemma shadesParse_string_option:
  assumes "s \<noteq> []" and "f s = Inr b"
  shows "shadesParse f [(''500'', s)] ALL_SHADES"
  using assms unfolding ALL_SHADES_eq by (simp add: shadesParse_def parses_def)

lemma hsla_lightness_string:
  assumes "s \<noteq> []" and "f s = Inr b"
  shows "colorOptionToHslaLightnessScale f str (Str s) prefix
           = Inr (Some (map (\<lambda>(k, c). (prefix @ k, str c))
                (definedEntries (generateFilledScaleFromBaseHslaColor b))))"
proof -
  have p500: "parsedShade f [(''500'', s)] ''500'' = Some b"
    using assms by (simp add: parsedShade_def)
  have sp: "shadesParse f [(''500'', s)] ALL_SHADES"
    using shadesParse_string_option [where f = f and s = s and b = b] assms by simp
  have m: "map (\<lambda>k. (k, mergedShade f [(''500'', s)] (generateFilledScaleFromBaseHslaColor b) k)) ALL_SHADES
           = generateFilledScaleFromBaseHslaColor b"
    using merged_string_option [where f = f and s = s and b = b] assms by simp
  from fill_closed [where c = "Str s" and base = "[(''500'', s)]" and f = f and str = str
      and prefix = prefix and generator = generateFilledScaleFromBaseHslaColor]
    sp assms(1)
  obtain b0 where b0: "parsedShade f [(''500'', s)] ''500'' = Some b0"
    and res: "fillUserProvidedScaleWithGeneratedHslaColors f str (Str s) prefix
                generateFilledScaleFromBaseHslaColor
              = Inr (Some (prefixAndStringifyHslaScale str
                  (map (\<lambda>k. (k, mergedShade f [(''500'', s)] (generateFilledScaleFromBaseHslaColor b0) k))
                     ALL_SHADES) prefix))"
    by auto
  from b0 p500 have "b0 = b" by simp
  have d: "distinct (map fst (generateFilledScaleFromBaseHslaColor b))"
    using generateFilledScale_keys distinct_ALL_SHADES by simp
  show ?thesis
    unfolding colorOptionToHslaLightnessScale_def res \<open>b0 = b\<close> m
    by (simp add: prefixAndStringify_definedEntries [OF d])
qed

text \<open>
  C2, as stated, fails: for the string \<^verbatim>\<open>white\<close> (lightness 100, above the light
  anchor) the HSLA lightness path prints shades whose light half is darker than
  the base, so the lightness along \<^verbatim>\<open>25\<close>, \<^verbatim>\<open>50\<close>, ..., \<^verbatim>\<open>950\<close> first rises from 97
  to 100.
\<close>

theorem lightness_monotone_counterexample:
  "colorOptionToHslaLightnessScale sampleToHslaColor sampleToHslaString (Str ''white'') ''p''
     = Inr (Some (map (\<lambda>(k, c). (''p'' @ k, sampleToHslaString c))
          (definedEntries (generateFilledScaleFromBaseHslaColor
             \<lparr>hsla_h = 0, hsla_s = 0, hsla_l = 100, hsla_a = 1\<rparr>))))
   \<and> \<not> sorted (rev (map (\<lambda>(k, c). hsla_l c)
        (definedEntries (generateFilledScaleFromBaseHslaColor
           \<lparr>hsla_h = 0, hsla_s = 0, hsla_l = 100, hsla_a = 1\<rparr>))))"
proof
  have w: "sampleToHslaColor ''white'' = Inr \<lparr>hsla_h = 0, hsla_s = 0, hsla_l = 100, hsla_a = 1\<rparr>"
    by (simp add: sampleToHslaColor_def)
  show "colorOptionToHslaLightnessScale sampleToHslaColor sampleToHslaString (Str ''white'') ''p''
     = Inr (Some (map (\<lambda>(k, c). (''p'' @ k, sampleToHslaString c))
          (definedEntries (generateFilledScaleFromBaseHslaColor
             \<lparr>hsla_h = 0, hsla_s = 0, hsla_l = 100, hsla_a = 1\<rparr>))))"
    using hsla_lightness_string [where f = sampleToHslaColor and s = "''white''"
        and b = "\<lparr>hsla_h = 0, hsla_s = 0, hsla_l = 100, hsla_a = 1\<rparr>"] w
    by simp
  show "\<not> sorted (rev (map (\<lambda>(k, c). hsla_l c)
        (definedEntries (generateFilledScaleFromBaseHslaColor
           \<lparr>hsla_h = 0, hsla_s = 0, hsla_l = 100, hsla_a = 1\<rparr>))))"
    unfolding generateFilledScale_eq by (simp add: definedEntries_def List.map_filter_def)
qed

text \<open>
  C2, amended. For every non-empty color string that the parser accepts with a
  lightness between 12 and 97, the HSLA lightness path returns the printed
  colors of the 15 shades in shade order, and their lightness along
  \<^verbatim>\<open>25\<close>, \<^verbatim>\<open>50\<close>, ..., \<^verbatim>\<open>950\<close> is non-increasing.
\<close>

theorem lightness_monotone:
  assumes "s \<noteq> []" and "toHslaColor s = Inr b" and "12 \<le> hsla_l b" and "hsla_l b \<le> 97"
  shows "colorOptionToHslaLightnessScale toHslaColor toHslaString (Str s) prefix
           = Inr (Some (map (\<lambda>(k, c). (prefix @ k, toHslaString c))
                (definedEntries (generateFilledScaleFromBaseHslaColor b))))
       \<and> map fst (definedEntries (generateFilledScaleFromBaseHslaColor b)) = ALL_SHADES
       \<and> sorted (rev (map (\<lambda>(k, c). hsla_l c)
            (definedEntries (generateFilledScaleFromBaseHslaColor b))))"
  using hsla_lightness_string [where f = toHslaColor and s = s and b = b] assms(1,2)
    definedEntries_keys_generateFilledScale lightness_ladder_sorted [OF assms(3,4)]
  by simp

theorem lightness_monotone_witness:
  "colorOptionToHslaLightnessScale sampleToHslaColor sampleToHslaString (Str ''red'') ''p''
     = Inr (Some (map (\<lambda>(k, c). (''p'' @ k, sampleToHslaString c))
          (definedEntries (generateFilledScaleFromBaseHslaColor
             \<lparr>hsla_h = 0, hsla_s = 100, hsla_l = 50, hsla_a = 1\<rparr>))))
   \<and> map fst (definedEntries (generateFilledScaleFromBaseHslaColor
        \<lparr>hsla_h = 0, hsla_s = 100, hsla_l = 50, hsla_a = 1\<rparr>)) = ALL_SHADES
   \<and> sorted (rev (map (\<lambda>(k, c). hsla_l c)
        (definedEntries (generateFilledScaleFromBaseHslaColor
           \<lparr>hsla_h = 0, hsla_s = 100, hsla_l = 50, hsla_a = 1\<rparr>))))"
proof -
  have h1: "''red'' \<noteq> []" by simp
  have h2: "sampleToHslaColor ''red'' = Inr \<lparr>hsla_h = 0, hsla_s = 100, hsla_l = 50, hsla_a = 1\<rparr>"
    by (simp add: sampleToHslaColor_def)
  have h3: "12 \<le> hsla_l \<lparr>hsla_h = 0, hsla_s = 100, hsla_l = 50, hsla_a = 1\<rparr>" by simp
  have h4: "hsla_l \<lparr>hsla_h = 0, hsla_s = 100, hsla_l = 50, hsla_a = 1\<rparr> \<le> 97" by simp
  show ?thesis
    by (rule lightness_monotone [where toHslaColor = sampleToHslaColor and s = "''red''"
          and b = "\<lparr>hsla_h = 0, hsla_s = 100, hsla_l = 50, hsla_a = 1\<rparr>", OF h1 h2 h3 h4])
qed

section \<open>Errors and falsy options\<close>

text \<open>
  C4. For every object without a truthy \<^verbatim>\<open>500\<close> entry the lightness entry point
  fails with the missing-base-shade error on both branches: the \<^verbatim>\<open>color-mix\<close>
  branch with the message that names the prefix, the HSLA branch with
  \<^verbatim>\<open>You need to provide at least the 500 shade\<close>.
\<close>

theorem missing_base_shade:
  assumes "\<not> truthyStr (map_of ob ''500'')"
  shows "createColorMixLightnessScale (Obj ob) prefix = Inl (Error (missing500Message prefix))
       \<and> colorOptionToHslaLightnessScale toHslaColor toHslaString (Obj ob) prefix
           = Inl (Error ''You need to provide at least the 500 shade'')
       \<and> fst (colorOptionToLightnessScale cssSupports toHslaColor toHslaString (Obj ob) prefix w)
           = Inl (Error (if fst (isColorMixSupported cssSupports w) then missing500Message prefix
                         else ''You need to provide at least the 500 shade''))"
  using assms
  by (simp add: createColorMixLightnessScale_def colorOptionToHslaLightnessScale_def
      fillUserProvidedScaleWithGeneratedHslaColors_def colorOptionToLightnessScale_def
      split: prod.splits)

theorem missing_base_shade_witness:
  "createColorMixLightnessScale (Obj [(''700'', ''red'')]) ''p'' = Inl (Error (missing500Message ''p''))
   \<and> colorOptionToHslaLightnessScale sampleToHslaColor sampleToHslaString (Obj [(''700'', ''red'')]) ''p''
       = Inl (Error ''You need to provide at least the 500 shade'')
   \<and> fst (colorOptionToLightnessScale True sampleToHslaColor sampleToHslaString
        (Obj [(''700'', ''red'')]) ''p'' freshWindow)
       = Inl (Error (missing500Message ''p''))
   \<and> fst (colorOptionToLightnessScale False sampleToHslaColor sampleToHslaString
        (Obj [(''700'', ''red'')]) ''p'' freshWindow)
       = Inl (Error ''You need to provide at least the 500 shade'')"
proof -
  have h: "\<not> truthyStr (map_of [(''700'', ''red'')] ''500'')" by simp
  have t: "fst (isColorMixSupported True freshWindow)" "\<not> fst (isColorMixSupported False freshWindow)"
    by (simp_all add: isColorMixSupported_def freshWindow_def)
  show ?thesis
    using missing_base_shade [OF h, of "''p''" sampleToHslaColor sampleToHslaString True freshWindow]
      missing_base_shade [OF h, of "''p''" sampleToHslaColor sampleToHslaString False freshWindow] t
    by simp
qed

text \<open>
  C10. Both entry points return \<open>undefined\<close> for every falsy option, and leave
  the window as it is: the falsy options are \<open>undefined\<close> and the empty string.
  \<^verbatim>\<open>createColorMixLightnessScale\<close> does the same.
\<close>

theorem falsy_option_undefined:
  assumes "\<not> truthy colorOption"
  shows "colorOptionToAlphaScale cssSupports toHslaColor toHslaString colorOption prefix w = (Inr None, w)
       \<and> colorOptionToLightnessScale cssSupports toHslaColor toHslaString colorOption prefix w = (Inr None, w)
       \<and> createColorMixLightnessScale colorOption prefix = Inr None
       \<and> (colorOption = Undefined \<or> colorOption = Str [])"
  using assms
  by (cases colorOption)
    (simp_all add: colorOptionToAlphaScale_def colorOptionToLightnessScale_def
      createColorMixLightnessScale_def)

theorem falsy_option_undefined_witness:
  "colorOptionToAlphaScale True sampleToHslaColor sampleToHslaString (Str []) ''p'' freshWindow
     = (Inr None, freshWindow)
   \<and> colorOptionToLightnessScale True sampleToHslaColor sampleToHslaString (Str []) ''p'' freshWindow
     = (Inr None, freshWindow)
   \<and> createColorMixLightnessScale (Str []) ''p'' = Inr None"
proof -
  have h: "\<not> truthy (Str [])" by simp
  show ?thesis
    using falsy_option_undefined [OF h, of True sampleToHslaColor sampleToHslaString "''p''" freshWindow]
    by simp
qed

section \<open>Keys of the returned scale\<close>

lemma alphaMix_keys:
  "map fst (createAlphaScaleWithTransparentize baseColor prefix) = map ((@) prefix) ALL_SHADES"
proof -
  let ?es = "map (\<lambda>(shadeKey, percentage). (prefix @ shadeKey, transparentize baseColor percentage))
               ALPHA_SHADES_MAP"
  have keys: "map fst ?es = map ((@) prefix) (map fst ALPHA_SHADES_MAP)"
    by (simp add: comp_def case_prod_beta)
  have "distinct (map fst ?es)"
    unfolding keys keys_ALPHA_SHADES_MAP by (rule distinct_prefixed [OF distinct_ALL_SHADES])
  then have "createAlphaScaleWithTransparentize baseColor prefix = ?es"
    unfolding createAlphaScaleWithTransparentize_def by (rule fromEntries_distinct)
  then show ?thesis
    using keys keys_ALPHA_SHADES_MAP by simp
qed

lemma lightness_mix_keys:
  assumes "validLightnessOption f c"
  shows "\<exists>res. createColorMixLightnessScale c prefix = Inr (Some res)
           \<and> map fst res = map ((@) prefix) ALL_SHADES"
proof (cases c)
  case Undefined
  with assms show ?thesis by (simp add: validLightnessOption_def)
next
  case (Str s)
  with assms have "s \<noteq> []" by (simp add: validLightnessOption_def)
  then show ?thesis unfolding Str by (rule createColorMix_Str)
next
  case (Obj ob)
  with assms have "truthyStr (map_of ob ''500'')" by (simp add: validLightnessOption_def)
  from createColorMix_Obj [OF this, of prefix] show ?thesis unfolding Obj by blast
qed

lemma mergedShade_defined:
  assumes "k \<in> set ALL_SHADES"
  shows "mergedShade f base (generateFilledScaleFromBaseHslaColor b) k \<noteq> None"
proof -
  have "getProp (generateFilledScaleFromBaseHslaColor b) k \<noteq> None"
    using generateFilledScale_defined [of b] assms by (simp add: list_all_iff)
  then show ?thesis
    by (simp add: mergedShade_def split: option.splits)
qed

lemma lightness_hsla_closed:
  assumes tr: "truthy c"
    and base: "base = (case c of Str s \<Rightarrow> [(''500'', s)] | Obj ob \<Rightarrow> ob | Undefined \<Rightarrow> [])"
    and b: "truthyStr (map_of base ''500'')"
    and ok: "shadesParse f base ALL_SHADES"
  shows "\<exists>res b. parsedShade f base ''500'' = Some b
           \<and> colorOptionToHslaLightnessScale f str c prefix = Inr (Some res)
           \<and> map fst res = map ((@) prefix) ALL_SHADES
           \<and> (\<forall>k \<in> set ALL_SHADES. map_of res (prefix @ k)
                 = map_option str (mergedShade f base (generateFilledScaleFromBaseHslaColor b) k))"
proof -
  from fill_closed [OF tr base b ok, of str prefix generateFilledScaleFromBaseHslaColor]
  obtain b0 where b0: "parsedShade f base ''500'' = Some b0"
    and res: "colorOptionToHslaLightnessScale f str c prefix
      = Inr (Some (prefixAndStringifyHslaScale str
          (map (\<lambda>k. (k, mergedShade f base (generateFilledScaleFromBaseHslaColor b0) k)) ALL_SHADES) prefix))"
    unfolding colorOptionToHslaLightnessScale_def by blast
  let ?scale = "map (\<lambda>k. (k, mergedShade f base (generateFilledScaleFromBaseHslaColor b0) k)) ALL_SHADES"
  have keys: "map fst ?scale = ALL_SHADES"
    by (simp add: comp_def)
  have get: "getProp ?scale k = mergedShade f base (generateFilledScaleFromBaseHslaColor b0) k"
    if "k \<in> set ALL_SHADES" for k
    using that by (simp add: getProp_def map_of_keyed)
  have full: "\<forall>k \<in> set ALL_SHADES. getProp ?scale k \<noteq> None"
    using get mergedShade_defined by simp
  have k1: "map fst (prefixAndStringifyHslaScale str ?scale prefix) = map ((@) prefix) ALL_SHADES"
    by (rule prefixAndStringify_keys [OF keys full])
  have k2: "\<forall>k \<in> set ALL_SHADES. map_of (prefixAndStringifyHslaScale str ?scale prefix) (prefix @ k)
                 = map_option str (mergedShade f base (generateFilledScaleFromBaseHslaColor b0) k)"
    using prefixAndStringify_lookup [OF keys, of _ str prefix] get by simp
  show ?thesis
    using b0 res k1 k2 by blast
qed

lemma lightness_hsla_keys:
  assumes "validLightnessOption f c"
  shows "\<exists>res. colorOptionToHslaLightnessScale f str c prefix = Inr (Some res)
           \<and> map fst res = map ((@) prefix) ALL_SHADES"
proof (cases c)
  case Undefined
  with assms show ?thesis by (simp add: validLightnessOption_def)
next
  case (Str s)
  with assms have s: "s \<noteq> []" "parses f s" by (simp_all add: validLightnessOption_def)
  then obtain b where "f s = Inr b" by (auto simp: parses_def split: sum.splits)
  with s have sp: "shadesParse f [(''500'', s)] ALL_SHADES"
    using shadesParse_string_option [where f = f and s = s and b = b] by simp
  from lightness_hsla_closed [where c = "Str s" and base = "[(''500'', s)]" and f = f
      and str = str and prefix = prefix] s(1) sp
  show ?thesis unfolding Str by auto
next
  case (Obj ob)
  with assms have o: "truthyStr (map_of ob ''500'')" "shadesParse f ob ALL_SHADES"
    by (simp_all add: validLightnessOption_def)
  from lightness_hsla_closed [where c = "Obj ob" and base = ob and f = f
      and str = str and prefix = prefix] o
  show ?thesis unfolding Obj by auto
qed

lemma alpha_hsla_keys:
  assumes "validAlphaOption f c"
  shows "\<exists>res. colorOptionToHslaAlphaScale f str c prefix = Inr (Some res)
           \<and> map fst res = map ((@) prefix) ALL_SHADES"
proof (cases c)
  case Undefined
  with assms show ?thesis by (simp add: validAlphaOption_def)
next
  case (Str s)
  with assms have s: "s \<noteq> []" "parses f s" by (simp_all add: validAlphaOption_def)
  then obtain b where b: "f s = Inr b" by (auto simp: parses_def split: sum.splits)
  have full: "\<forall>k \<in> set ALL_SHADES. getProp (generateFilledAlphaScaleFromBaseHslaColor b) k \<noteq> None"
    using generateFilledAlphaScale_defined [of b] by (simp add: list_all_iff)
  have "colorOptionToHslaAlphaScale f str (Str s) prefix
          = Inr (Some (prefixAndStringifyHslaScale str (generateFilledAlphaScaleFromBaseHslaColor b) prefix))"
    using s(1) b
    by (simp add: colorOptionToHslaAlphaScale_def getUserProvidedScaleOrGenerateHslaColorsScale_def)
  then show ?thesis
    unfolding Str using prefixAndStringify_keys [OF generateFilledAlphaScale_keys full] by simp
next
  case (Obj ob)
  with assms have o: "set (map fst ob) = set ALL_SHADES" "list_all (\<lambda>(k, v). parses f v) ob"
    by (simp_all add: validAlphaOption_def)
  have every: "list_all (\<lambda>key. key \<in> set (map fst ob)) ALL_SHADES"
    using o(1) by (simp add: list_all_iff)
  have sub: "fst ` set ob \<subseteq> fst ` set (createEmptyColorScale :: (string \<times> hsla option) list)"
  proof -
    have "fst ` set (createEmptyColorScale :: (string \<times> hsla option) list)
            = set (map fst (createEmptyColorScale :: (string \<times> hsla option) list))"
      by simp
    also have "\<dots> = set ALL_SHADES"
      unfolding keys_createEmptyColorScale ..
    finally show ?thesis using o(1) by simp
  qed
  from alphaReduce_ok [OF o(2) sub] obtain scale where
    r: "alphaReduce f ob createEmptyColorScale = Inr scale"
    and keys: "map fst scale = map fst (createEmptyColorScale :: (string \<times> hsla option) list)"
    and def: "\<forall>k. k \<in> fst ` set ob \<longrightarrow> getProp scale k \<noteq> None"
    by blast
  have keys': "map fst scale = ALL_SHADES"
    using keys keys_createEmptyColorScale by simp
  have "fst ` set ob = set ALL_SHADES"
    using o(1) by simp
  with def have full: "\<forall>k \<in> set ALL_SHADES. getProp scale k \<noteq> None"
    by simp
  have "colorOptionToHslaAlphaScale f str (Obj ob) prefix
          = Inr (Some (prefixAndStringifyHslaScale str scale prefix))"
    using every r
    by (simp add: colorOptionToHslaAlphaScale_def getUserProvidedScaleOrGenerateHslaColorsScale_def)
  then show ?thesis
    unfolding Obj using prefixAndStringify_keys [OF keys' full] by simp
qed

lemma valid_truthy:
  "validLightnessOption f c \<Longrightarrow> truthy c" "validAlphaOption f c \<Longrightarrow> truthy c"
  by (cases c; simp add: validLightnessOption_def validAlphaOption_def)+

text \<open>
  C9, as stated, fails: the empty string is a string and is not \<open>undefined\<close>, and
  both entry points return \<open>undefined\<close> for it, not a mapping of 15 keys.
\<close>

theorem scale_keys_counterexample:
  "\<not> (\<exists>res. fst (colorOptionToLightnessScale True sampleToHslaColor sampleToHslaString
                    (Str []) ''p'' freshWindow) = Inr (Some res)
             \<and> map fst res = map ((@) ''p'') ALL_SHADES)
   \<and> \<not> (\<exists>res. fst (colorOptionToAlphaScale True sampleToHslaColor sampleToHslaString
                    (Str []) ''p'' freshWindow) = Inr (Some res)
             \<and> map fst res = map ((@) ''p'') ALL_SHADES)"
  by (simp add: colorOptionToLightnessScale_def colorOptionToAlphaScale_def)

text \<open>
  C9, amended. For every valid option and every prefix, both entry points
  return a mapping, on either branch, whose keys are exactly the 15 shade keys in
  shade order, each the prefix immediately followed by the shade key; the 15
  keys are distinct. A valid option is a non-empty color string that the parser
  accepts or a valid object: for the lightness entry point an object with a
  truthy \<^verbatim>\<open>500\<close> whose truthy shade entries the parser accepts, for the alpha
  entry point an object whose keys are the 15 shade keys and whose values the
  parser accepts.
\<close>

theorem scale_keys:
  "(validLightnessOption toHslaColor colorOption \<longrightarrow>
      (\<exists>res. fst (colorOptionToLightnessScale cssSupports toHslaColor toHslaString colorOption prefix w)
                = Inr (Some res)
            \<and> map fst res = map ((@) prefix) ALL_SHADES))
   \<and> (validAlphaOption toHslaColor colorOption \<longrightarrow>
      (\<exists>res. fst (colorOptionToAlphaScale cssSupports toHslaColor toHslaString colorOption prefix w)
                = Inr (Some res)
            \<and> map fst res = map ((@) prefix) ALL_SHADES))
   \<and> length (map ((@) prefix) ALL_SHADES) = 15
   \<and> distinct (map ((@) prefix) ALL_SHADES)"
proof (intro conjI impI)
  assume v: "validLightnessOption toHslaColor colorOption"
  obtain sup w' where p: "isColorMixSupported cssSupports w = (sup, w')"
    by (cases "isColorMixSupported cssSupports w")
  show "\<exists>res. fst (colorOptionToLightnessScale cssSupports toHslaColor toHslaString colorOption prefix w)
                = Inr (Some res)
            \<and> map fst res = map ((@) prefix) ALL_SHADES"
  proof (cases sup)
    case True
    with p valid_truthy(1) [OF v] lightness_mix_keys [OF v, of prefix] show ?thesis
      by (simp add: colorOptionToLightnessScale_def)
  next
    case False
    with p valid_truthy(1) [OF v] lightness_hsla_keys [OF v, of toHslaString prefix] show ?thesis
      by (simp add: colorOptionToLightnessScale_def)
  qed
next
  assume v: "validAlphaOption toHslaColor colorOption"
  obtain sup w' where p: "isColorMixSupported cssSupports w = (sup, w')"
    by (cases "isColorMixSupported cssSupports w")
  show "\<exists>res. fst (colorOptionToAlphaScale cssSupports toHslaColor toHslaString colorOption prefix w)
                = Inr (Some res)
            \<and> map fst res = map ((@) prefix) ALL_SHADES"
  proof (cases sup)
    case True
    with p valid_truthy(2) [OF v] alphaMix_keys show ?thesis
      by (simp add: colorOptionToAlphaScale_def)
  next
    case False
    with p valid_truthy(2) [OF v] alpha_hsla_keys [OF v, of toHslaString prefix] show ?thesis
      by (simp add: colorOptionToAlphaScale_def)
  qed
next
  show "length (map ((@) prefix) ALL_SHADES) = 15"
    by (simp add: length_ALL_SHADES)
  show "distinct (map ((@) prefix) ALL_SHADES)"
    by (rule distinct_prefixed [OF distinct_ALL_SHADES])
qed

theorem scale_keys_witness:
  "(\<exists>res. fst (colorOptionToLightnessScale False sampleToHslaColor sampleToHslaString
               (Obj [(''500'', ''red''), (''700'', ''blue'')]) ''p'' freshWindow) = Inr (Some res)
          \<and> map fst res = map ((@) ''p'') ALL_SHADES)
   \<and> (\<exists>res. fst (colorOptionToAlphaScale False sampleToHslaColor sampleToHslaString
               (Str ''red'') ''p'' freshWindow) = Inr (Some res)
          \<and> map fst res = map ((@) ''p'') ALL_SHADES)"
proof -
  have v1: "validLightnessOption sampleToHslaColor (Obj [(''500'', ''red''), (''700'', ''blue'')])"
    by (simp add: validLightnessOption_def shadesParse_def ALL_SHADES_eq parses_def
        sampleToHslaColor_def)
  have v2: "validAlphaOption sampleToHslaColor (Str ''red'')"
    by (simp add: validAlphaOption_def parses_def sampleToHslaColor_def)
  from v1 scale_keys [of sampleToHslaColor "Obj [(''500'', ''red''), (''700'', ''blue'')]" False
      sampleToHslaString "''p''" freshWindow]
  have a: "\<exists>res. fst (colorOptionToLightnessScale False sampleToHslaColor sampleToHslaString
               (Obj [(''500'', ''red''), (''700'', ''blue'')]) ''p'' freshWindow) = Inr (Some res)
          \<and> map fst res = map ((@) ''p'') ALL_SHADES"
    by blast
  from v2 scale_keys [of sampleToHslaColor "Str ''red''" False sampleToHslaString "''p''" freshWindow]
  have b: "\<exists>res. fst (colorOptionToAlphaScale False sampleToHslaColor sampleToHslaString
               (Str ''red'') ''p'' freshWindow) = Inr (Some res)
          \<and> map fst res = map ((@) ''p'') ALL_SHADES"
    by blast
  from a b show ?thesis by blast
qed

section \<open>Overrides\<close>

lemma parsedShade_override:
  assumes "shadesParse f ob ALL_SHADES" and "k \<in> set ALL_SHADES"
    and "map_of ob k = Some X" and "X \<noteq> []"
  shows "\<exists>cX. f X = Inr cX \<and> parsedShade f ob k = Some cX"
proof -
  from assms(1,2) have "case truthyVal (map_of ob k) of None \<Rightarrow> True | Some v \<Rightarrow> parses f v"
    unfolding shadesParse_def list_all_iff by blast
  with assms(3,4) obtain cX where "f X = Inr cX"
    by (auto simp: parses_def split: sum.splits)
  with assms(3,4) show ?thesis
    by (simp add: parsedShade_def)
qed

lemma hslaEntries_fail:
  "\<not> shadesParse f base ks \<Longrightarrow>
   \<exists>k v e. k \<in> set ks \<and> map_of base k = Some v \<and> v \<noteq> [] \<and> f v = Inl e
     \<and> hslaEntries f base ks = Inl e"
proof (induction ks)
  case Nil
  then show ?case by (simp add: shadesParse_def)
next
  case (Cons k ks)
  show ?case
  proof (cases "case truthyVal (map_of base k) of None \<Rightarrow> True | Some v \<Rightarrow> parses f v")
    case False
    then obtain v where v: "map_of base k = Some v" "v \<noteq> []" "\<not> parses f v"
      by (cases "map_of base k") (auto split: if_splits)
    then obtain e where e: "f v = Inl e"
      by (auto simp: parses_def split: sum.splits)
    have "hslaEntries f base (k # ks) = Inl e"
      using v e by simp
    with v e show ?thesis by auto
  next
    case True
    with Cons.prems have "\<not> shadesParse f base ks"
      by (simp add: shadesParse_def)
    from Cons.IH [OF this] obtain k' v e where
      t: "k' \<in> set ks" "map_of base k' = Some v" "v \<noteq> []" "f v = Inl e"
         "hslaEntries f base ks = Inl e"
      by blast
    have hd: "\<exists>c. (if truthyStr (map_of base k)
            then (case map_of base k of
                    None \<Rightarrow> Inr None
                  | Some v \<Rightarrow> (case f v of Inl e \<Rightarrow> Inl e | Inr c \<Rightarrow> Inr (Some c)))
            else Inr None) = Inr c"
      using True
      by (cases "map_of base k") (auto simp: parses_def split: sum.splits if_splits)
    then obtain c where c: "(if truthyStr (map_of base k)
            then (case map_of base k of
                    None \<Rightarrow> Inr None
                  | Some v \<Rightarrow> (case f v of Inl e \<Rightarrow> Inl e | Inr c \<Rightarrow> Inr (Some c)))
            else Inr None) = Inr c"
      by blast
    have "hslaEntries f base (k # ks) = Inl e"
      unfolding hslaEntries.simps c using t(5) by simp
    with t show ?thesis by auto
  qed
qed

lemma hsla_lightness_parse_failure:
  assumes "truthyStr (map_of ob ''500'')" and "\<not> shadesParse f ob ALL_SHADES"
  shows "\<exists>k v e. k \<in> set ALL_SHADES \<and> map_of ob k = Some v \<and> v \<noteq> [] \<and> f v = Inl e
           \<and> colorOptionToHslaLightnessScale f str (Obj ob) prefix = Inl e"
proof -
  from hslaEntries_fail [OF assms(2)] obtain k v e where
    t: "k \<in> set ALL_SHADES" "map_of ob k = Some v" "v \<noteq> []" "f v = Inl e"
       "hslaEntries f ob ALL_SHADES = Inl e"
    by blast
  have "userDefinedColorToHslaColorScale f (Obj ob) = Inl e"
    using t(5) by (simp add: userDefinedColorToHslaColorScale_def keys_createEmptyColorScale)
  then have "colorOptionToHslaLightnessScale f str (Obj ob) prefix = Inl e"
    using assms(1)
    by (simp add: colorOptionToHslaLightnessScale_def fillUserProvidedScaleWithGeneratedHslaColors_def)
  with t show ?thesis by blast
qed

text \<open>
  C7, as stated, fails on the HSLA branch: the object with \<^verbatim>\<open>500\<close> red, \<^verbatim>\<open>700\<close> blue
  and \<^verbatim>\<open>900\<close> a string the parser rejects has a truthy \<^verbatim>\<open>500\<close> and the truthy entry
  blue at \<^verbatim>\<open>700\<close>, which parses, and the call throws the parse failure of the
  entry at \<^verbatim>\<open>900\<close>: there is no output at the prefixed key of \<^verbatim>\<open>700\<close>.
\<close>

theorem override_priority_counterexample:
  "truthyStr (map_of [(''500'', ''red''), (''700'', ''blue''), (''900'', ''nocolor'')] ''500'')
   \<and> map_of [(''500'', ''red''), (''700'', ''blue''), (''900'', ''nocolor'')] ''700'' = Some ''blue''
   \<and> truthyStr (Some ''blue'')
   \<and> sampleToHslaColor ''blue'' = Inr \<lparr>hsla_h = 240, hsla_s = 100, hsla_l = 50, hsla_a = 1\<rparr>
   \<and> colorOptionToHslaLightnessScale sampleToHslaColor sampleToHslaString
        (Obj [(''500'', ''red''), (''700'', ''blue''), (''900'', ''nocolor'')]) ''p''
       = Inl (Error ''nocolor cannot be used as a color'')
   \<and> fst (colorOptionToLightnessScale False sampleToHslaColor sampleToHslaString
        (Obj [(''500'', ''red''), (''700'', ''blue''), (''900'', ''nocolor'')]) ''p'' freshWindow)
       = Inl (Error ''nocolor cannot be used as a color'')"
  by (simp add: colorOptionToLightnessScale_def isColorMixSupported_def freshWindow_def
      colorOptionToHslaLightnessScale_def fillUserProvidedScaleWithGeneratedHslaColors_def
      userDefinedColorToHslaColorScale_def createEmptyColorScale_def sampleToHslaColor_def)

text \<open>
  C7, amended. For every object with a truthy \<^verbatim>\<open>500\<close> entry and a truthy entry \<open>X\<close>
  at a shade key \<open>k\<close>: on the \<^verbatim>\<open>color-mix\<close> branch the output at the prefixed key of
  \<open>k\<close> is the string \<open>X\<close> itself; on the HSLA branch, when the parser accepts every
  truthy shade entry of the object, the output there is the printed form of
  the parsed \<open>X\<close>, and when it rejects one, the call throws the parse failure of
  a rejected entry. The entry point returns what the function of its branch
  returns.
\<close>

theorem override_priority:
  assumes "truthyStr (map_of ob ''500'')" and "k \<in> set ALL_SHADES"
    and "map_of ob k = Some X" and "X \<noteq> []"
  shows "(\<exists>res. createColorMixLightnessScale (Obj ob) prefix = Inr (Some res)
            \<and> map_of res (prefix @ k) = Some X)
       \<and> (shadesParse toHslaColor ob ALL_SHADES \<longrightarrow>
            (\<exists>res cX. toHslaColor X = Inr cX
               \<and> colorOptionToHslaLightnessScale toHslaColor toHslaString (Obj ob) prefix = Inr (Some res)
               \<and> map_of res (prefix @ k) = Some (toHslaString cX)))
       \<and> (\<not> shadesParse toHslaColor ob ALL_SHADES \<longrightarrow>
            (\<exists>k' v e. k' \<in> set ALL_SHADES \<and> map_of ob k' = Some v \<and> v \<noteq> []
               \<and> toHslaColor v = Inl e
               \<and> colorOptionToHslaLightnessScale toHslaColor toHslaString (Obj ob) prefix = Inl e))
       \<and> fst (colorOptionToLightnessScale cssSupports toHslaColor toHslaString (Obj ob) prefix w)
           = (if fst (isColorMixSupported cssSupports w) then createColorMixLightnessScale (Obj ob) prefix
              else colorOptionToHslaLightnessScale toHslaColor toHslaString (Obj ob) prefix)"
proof (intro conjI impI)
  from createColorMix_Obj [OF assms(1), of prefix] assms(2,3,4)
  show "\<exists>res. createColorMixLightnessScale (Obj ob) prefix = Inr (Some res)
            \<and> map_of res (prefix @ k) = Some X"
    by blast
next
  assume sp: "shadesParse toHslaColor ob ALL_SHADES"
  from parsedShade_override [OF sp assms(2,3,4)] obtain cX where
    cX: "toHslaColor X = Inr cX" "parsedShade toHslaColor ob k = Some cX"
    by blast
  from lightness_hsla_closed [where c = "Obj ob" and base = ob and f = toHslaColor
      and str = toHslaString and prefix = prefix] assms(1) sp
  obtain res b where
    res: "colorOptionToHslaLightnessScale toHslaColor toHslaString (Obj ob) prefix = Inr (Some res)"
    and look: "\<forall>k \<in> set ALL_SHADES. map_of res (prefix @ k)
                 = map_option toHslaString
                     (mergedShade toHslaColor ob (generateFilledScaleFromBaseHslaColor b) k)"
    by auto
  have "mergedShade toHslaColor ob (generateFilledScaleFromBaseHslaColor b) k = Some cX"
    using cX(2) by (simp add: mergedShade_def)
  with look assms(2) have "map_of res (prefix @ k) = Some (toHslaString cX)"
    by simp
  with cX(1) res
  show "\<exists>res cX. toHslaColor X = Inr cX
          \<and> colorOptionToHslaLightnessScale toHslaColor toHslaString (Obj ob) prefix = Inr (Some res)
          \<and> map_of res (prefix @ k) = Some (toHslaString cX)"
    by blast
next
  assume ns: "\<not> shadesParse toHslaColor ob ALL_SHADES"
  from hsla_lightness_parse_failure [OF assms(1) ns, of toHslaString prefix]
  show "\<exists>k' v e. k' \<in> set ALL_SHADES \<and> map_of ob k' = Some v \<and> v \<noteq> []
          \<and> toHslaColor v = Inl e
          \<and> colorOptionToHslaLightnessScale toHslaColor toHslaString (Obj ob) prefix = Inl e" .
next
  show "fst (colorOptionToLightnessScale cssSupports toHslaColor toHslaString (Obj ob) prefix w)
           = (if fst (isColorMixSupported cssSupports w) then createColorMixLightnessScale (Obj ob) prefix
              else colorOptionToHslaLightnessScale toHslaColor toHslaString (Obj ob) prefix)"
    by (simp add: colorOptionToLightnessScale_def split: prod.splits)
qed

theorem override_priority_witness:
  "(\<exists>res. createColorMixLightnessScale (Obj [(''500'', ''red''), (''700'', ''blue'')]) ''p''
             = Inr (Some res)
          \<and> map_of res ''p700'' = Some ''blue'')
   \<and> (\<exists>res. colorOptionToHslaLightnessScale sampleToHslaColor sampleToHslaString
               (Obj [(''500'', ''red''), (''700'', ''blue'')]) ''p'' = Inr (Some res)
          \<and> map_of res ''p700''
               = Some (sampleToHslaString \<lparr>hsla_h = 240, hsla_s = 100, hsla_l = 50, hsla_a = 1\<rparr>))"
proof -
  let ?ob = "[(''500'', ''red''), (''700'', ''blue'')]"
  have h1: "truthyStr (map_of ?ob ''500'')" by simp
  have h2: "''700'' \<in> set ALL_SHADES" by (simp add: ALL_SHADES_eq)
  have h3: "map_of ?ob ''700'' = Some ''blue''" by simp
  have h4: "''blue'' \<noteq> []" by simp
  have h5: "shadesParse sampleToHslaColor ?ob ALL_SHADES"
    by (simp add: shadesParse_def ALL_SHADES_eq parses_def sampleToHslaColor_def)
  have blue: "sampleToHslaColor ''blue'' = Inr \<lparr>hsla_h = 240, hsla_s = 100, hsla_l = 50, hsla_a = 1\<rparr>"
    by (simp add: sampleToHslaColor_def)
  from override_priority [OF h1 h2 h3 h4, of "''p''" sampleToHslaColor sampleToHslaString True freshWindow]
    h5 blue
  show ?thesis by auto
qed

section \<open>The alpha entry point on an incomplete object\<close>

lemma alpha_hsla_incomplete:
  assumes "\<not> list_all (\<lambda>key. key \<in> set (map fst ob)) ALL_SHADES"
  shows "colorOptionToHslaAlphaScale toHslaColor toHslaString (Obj ob) prefix
           = Inl (Error allShadesMessage)"
  using assms
  by (simp add: colorOptionToHslaAlphaScale_def getUserProvidedScaleOrGenerateHslaColorsScale_def)

lemma alpha_mix_never_fails:
  assumes "fst (isColorMixSupported cssSupports w)"
  shows "fst (colorOptionToAlphaScale cssSupports toHslaColor toHslaString (Obj ob) prefix w)
           = Inr (Some (createAlphaScaleWithTransparentize ''[object Object]'' prefix))"
  using assms
  by (cases "isColorMixSupported cssSupports w") (simp add: colorOptionToAlphaScale_def)

text \<open>
  C3. The object with the single key \<^verbatim>\<open>500\<close> lacks 14 of the 15 shade keys. With
  \<^verbatim>\<open>color-mix\<close> supported the alpha entry point does not fail on it: it returns 15
  \<^verbatim>\<open>color-mix\<close> expressions built from the object printed as \<^verbatim>\<open>[object Object]\<close>.
  Without \<^verbatim>\<open>color-mix\<close> the same call fails with the message that lists the
  shades.
\<close>

theorem alpha_mix_incomplete_object:
  "\<not> list_all (\<lambda>key. key \<in> set (map fst [(''500'', ''red'')])) ALL_SHADES
   \<and> fst (colorOptionToAlphaScale True sampleToHslaColor sampleToHslaString
        (Obj [(''500'', ''red'')]) ''p'' freshWindow)
     = Inr (Some
        [(''p25'', ''color-mix(in oklch, [object Object] 2%, transparent)''),
         (''p50'', ''color-mix(in oklch, [object Object] 3%, transparent)''),
         (''p100'', ''color-mix(in oklch, [object Object] 7%, transparent)''),
         (''p150'', ''color-mix(in oklch, [object Object] 11%, transparent)''),
         (''p200'', ''color-mix(in oklch, [object Object] 15%, transparent)''),
         (''p300'', ''color-mix(in oklch, [object Object] 28%, transparent)''),
         (''p400'', ''color-mix(in oklch, [object Object] 41%, transparent)''),
         (''p500'', ''color-mix(in oklch, [object Object] 53%, transparent)''),
         (''p600'', ''color-mix(in oklch, [object Object] 62%, transparent)''),
         (''p700'', ''color-mix(in oklch, [object Object] 73%, transparent)''),
         (''p750'', ''color-mix(in oklch, [object Object] 78%, transparent)''),
         (''p800'', ''color-mix(in oklch, [object Object] 81%, transparent)''),
         (''p850'', ''color-mix(in oklch, [object Object] 84%, transparent)''),
         (''p900'', ''color-mix(in oklch, [object Object] 87%, transparent)''),
         (''p950'', ''color-mix(in oklch, [object Object] 92%, transparent)'')])
   \<and> fst (colorOptionToAlphaScale False sampleToHslaColor sampleToHslaString
        (Obj [(''500'', ''red'')]) ''p'' freshWindow)
     = Inl (Error allShadesMessage)"
  by code_simp

end
